theory Spec2Isabelle
  imports
    Main
    "HOL-Library.Word"
    "HOL-Library.Signed_Division"
    "HOL-Library.Stream"
begin

unbundle bit_operations_syntax

section \<open>The snowflake generator of \<^verbatim>\<open>snowflake.go\<close>\<close>

text \<open>
  Go's \<^verbatim>\<open>int64\<close> is a 64-bit word: \<open>+\<close> and \<open>-\<close> wrap around, \<^verbatim>\<open><<\<close> is
  \<open>push_bit\<close> (bits shifted out are lost), \<^verbatim>\<open>|\<close>, \<^verbatim>\<open>&\<close> and binary \<^verbatim>\<open>^\<close> are \<open>OR\<close>,
  \<open>AND\<close> and \<open>XOR\<close>, and the comparisons \<^verbatim>\<open><\<close>, \<^verbatim>\<open><=\<close> are the signed ones, \<open><s\<close> and
  \<open>\<le>s\<close>. The order \<open><\<close> of the word type itself is the unsigned one.
\<close>

type_synonym int64 = "64 word"

subsection \<open>Constants\<close>

text \<open>
  The constants of the \<^verbatim>\<open>const\<close> block. The masks are untyped constants in Go and are used as
  \<^verbatim>\<open>int64\<close> only; their values are 31, 31 and 4095 (\<open>maxWorkerId_eq\<close>, \<open>maxDatacenterId_eq\<close>,
  \<open>sequenceMask_eq\<close>).
\<close>

definition twepoch :: int64 where
  "twepoch = 1577808000000"

definition workerIdBits :: nat where
  "workerIdBits = 5"

definition datacenterIdBits :: nat where
  "datacenterIdBits = 5"

definition maxWorkerId :: int64 where
  "maxWorkerId = (- 1) XOR (push_bit workerIdBits (- 1))"

definition maxDatacenterId :: int64 where
  "maxDatacenterId = (- 1) XOR (push_bit datacenterIdBits (- 1))"

definition sequenceBits :: nat where
  "sequenceBits = 12"

definition workerIdShift :: nat where
  "workerIdShift = sequenceBits"

definition datacenterIdShift :: nat where
  "datacenterIdShift = sequenceBits + workerIdBits"

definition timestampLeftShift :: nat where
  "timestampLeftShift = sequenceBits + workerIdBits + datacenterIdBits"

definition sequenceMask :: int64 where
  "sequenceMask = (- 1) XOR (push_bit sequenceBits (- 1))"

subsection \<open>The generator and its errors\<close>

text \<open>
  The struct \<^verbatim>\<open>Snowflake\<close>. Its mutex makes every call of \<^verbatim>\<open>NextId\<close> one atomic step, so
  the model runs the calls one after the other and has no field for it.
\<close>

record Snowflake =
  lastTimestamp :: int64
  workerId :: int64
  datacenterId :: int64
  sequence :: int64

text \<open>
  Both errors of the package are made by \<^verbatim>\<open>fmt.Errorf\<close> with a format that holds one
  \<^verbatim>\<open>%d\<close> and one \<^verbatim>\<open>int64\<close> argument. An error value keeps the two; \<open>Error\<close> is the
  message Go prints for it.
\<close>

datatype error = Errorf string int64

function decimal :: "nat \<Rightarrow> string" where
  "decimal n =
     (if n < 10 then [''0123456789'' ! n]
      else decimal (n div 10) @ [''0123456789'' ! (n mod 10)])"
  by pat_completeness auto
termination
  by (relation "measure id") auto

definition format_d :: "int64 \<Rightarrow> string" where
  "format_d x = (if x <s 0 then CHR ''-'' # decimal (nat (- sint x)) else decimal (nat (sint x)))"

fun Sprintf :: "string \<Rightarrow> int64 \<Rightarrow> string" where
  "Sprintf [] x = []"
| "Sprintf [c] x = [c]"
| "Sprintf (c # d # cs) x =
     (if c = CHR ''%'' \<and> d = CHR ''d'' then format_d x @ cs else c # Sprintf (d # cs) x)"

fun Error :: "error \<Rightarrow> string" where
  "Error (Errorf fmt x) = Sprintf fmt x"

subsection \<open>Construction\<close>

text \<open>\<^verbatim>\<open>New\<close>; the line it logs is not part of the model.\<close>

definition New :: "int64 \<Rightarrow> int64 \<Rightarrow> error + Snowflake" where
  "New wid did =
     (if wid <s 0 \<or> maxWorkerId <s wid then
        Inl (Errorf ''worker Id can't be greater than %d or less than 0'' maxWorkerId)
      else if did <s 0 \<or> maxDatacenterId <s did then
        Inl (Errorf ''datacenter Id can't be greater than %d or less than 0'' did)
      else
        Inr \<lparr>lastTimestamp = 0, workerId = wid, datacenterId = did, sequence = 0\<rparr>)"

subsection \<open>The clock\<close>

text \<open>
  The clock is outside the program: a \<open>clock\<close> is the stream of the values that the
  coming calls of \<^verbatim>\<open>time.Now().UnixNano()\<close> return, one per call. Go divides integers
  towards zero.
\<close>

type_synonym clock = "int64 stream"

definition quo :: "int64 \<Rightarrow> int64 \<Rightarrow> int64" where
  "quo a b = word_of_int (sint a sdiv sint b)"

definition timeGen :: "clock \<Rightarrow> int64 \<times> clock" where
  "timeGen clk = (quo (shd clk) 1000000, stl clk)"

text \<open>
  \<^verbatim>\<open>tilNextMillis\<close> reads the clock once and then as long as the reading is not after
  \<open>lastTimestamp\<close>. Nothing bounds the loop, so the result is an option: \<open>None\<close> is the
  call that never returns.
\<close>

partial_function (option) tilNextMillis_loop ::
    "int64 \<Rightarrow> int64 \<Rightarrow> clock \<Rightarrow> (int64 \<times> clock) option" where
  "tilNextMillis_loop lastTimestamp' timestamp clk =
     (if timestamp \<le>s lastTimestamp' then
        tilNextMillis_loop lastTimestamp' (fst (timeGen clk)) (snd (timeGen clk))
      else Some (timestamp, clk))"

definition tilNextMillis :: "int64 \<Rightarrow> clock \<Rightarrow> (int64 \<times> clock) option" where
  "tilNextMillis lastTimestamp' clk =
     tilNextMillis_loop lastTimestamp' (fst (timeGen clk)) (snd (timeGen clk))"

subsection \<open>Issuing an identifier\<close>

text \<open>The expression of the \<^verbatim>\<open>return\<close> statement of \<^verbatim>\<open>NextId\<close>.\<close>

definition compose :: "Snowflake \<Rightarrow> int64 \<Rightarrow> int64" where
  "compose s timestamp =
     push_bit timestampLeftShift (timestamp - twepoch)
       OR push_bit datacenterIdShift (datacenterId s)
       OR push_bit workerIdShift (workerId s)
       OR sequence s"

text \<open>
  \<^verbatim>\<open>NextId\<close> takes the generator and the clock and returns the result, the generator as the
  call leaves it, and the rest of the clock. The result is the error (Go returns it next to a
  0) or the identifier. \<open>None\<close> is the call whose wait for the next millisecond never ends.
\<close>

definition NextId :: "Snowflake \<Rightarrow> clock \<Rightarrow> ((error + int64) \<times> Snowflake \<times> clock) option" where
  "NextId s clk =
     (case timeGen clk of (timestamp, clk1) \<Rightarrow>
        if timestamp <s lastTimestamp s then
          Some (Inl (Errorf ''Clock moved backwards.  Refusing to generate id for %d milliseconds''
                       (lastTimestamp s - timestamp)), s, clk1)
        else
          (case
             (if timestamp = lastTimestamp s then
                (let s1 = s\<lparr>sequence := (sequence s + 1) AND sequenceMask\<rparr> in
                 if sequence s1 = 0 then
                   (case tilNextMillis (lastTimestamp s1) clk1 of
                      None \<Rightarrow> None
                    | Some (timestamp', clk2) \<Rightarrow> Some (timestamp', s1, clk2))
                 else Some (timestamp, s1, clk1))
              else Some (timestamp, s\<lparr>sequence := 0\<rparr>, clk1))
           of
             None \<Rightarrow> None
           | Some (timestamp', s2, clk2) \<Rightarrow>
               (let s3 = s2\<lparr>lastTimestamp := timestamp'\<rparr>
                in Some (Inr (compose s3 timestamp'), s3, clk2))))"

text \<open>
  A caller that calls \<^verbatim>\<open>NextId\<close> \<open>n\<close> times in a row on one generator, as the loop of
  \<^verbatim>\<open>TestSnowflake_NextId\<close> does, and keeps the results in the order of the calls.
\<close>

fun calls :: "nat \<Rightarrow> Snowflake \<Rightarrow> clock \<Rightarrow> ((error + int64) list \<times> Snowflake \<times> clock) option" where
  "calls 0 s clk = Some ([], s, clk)"
| "calls (Suc n) s clk =
     (case NextId s clk of
        None \<Rightarrow> None
      | Some (r, s1, clk1) \<Rightarrow>
          (case calls n s1 clk1 of
             None \<Rightarrow> None
           | Some (rs, s2, clk2) \<Rightarrow> Some (r # rs, s2, clk2)))"

subsection \<open>Notions used by the properties\<close>

text \<open>\<open>reading clk k\<close> is what the \<open>k\<close>-th coming call of \<^verbatim>\<open>timeGen\<close> returns (counted from 0).\<close>

definition reading :: "clock \<Rightarrow> nat \<Rightarrow> int64" where
  "reading clk k = fst (timeGen (sdrop k clk))"

text \<open>
  The ranges of the four fields. The fields are unexported, so every generator of a
  client comes from \<^verbatim>\<open>New\<close> and has been changed by \<^verbatim>\<open>NextId\<close> only; \<open>invar\<close> holds of all
  of them (\<open>New_invar\<close>, \<open>NextId_invar\<close>). The bound on \<open>lastTimestamp\<close> is the largest
  value \<^verbatim>\<open>timeGen\<close> can return.
\<close>

definition invar :: "Snowflake \<Rightarrow> bool" where
  "invar s \<longleftrightarrow>
     0 \<le>s lastTimestamp s \<and> lastTimestamp s \<le>s 9223372036854 \<and>
     0 \<le>s workerId s \<and> workerId s \<le>s maxWorkerId \<and>
     0 \<le>s datacenterId s \<and> datacenterId s \<le>s maxDatacenterId \<and>
     0 \<le>s sequence s \<and> sequence s \<le>s sequenceMask"

text \<open>
  The number that the identifier composed from the fields of a generator stands for when
  nothing wraps around: the fields weighted by their places in the layout.
\<close>

definition level :: "Snowflake \<Rightarrow> int" where
  "level s =
     (sint (lastTimestamp s) - 1577808000000) * 4194304 + sint (datacenterId s) * 131072
       + sint (workerId s) * 4096 + sint (sequence s)"

text \<open>The identifiers among the results of a run of calls, in the order of the calls.\<close>

fun issued :: "(error + int64) list \<Rightarrow> int64 list" where
  "issued [] = []"
| "issued (Inl e # rs) = issued rs"
| "issued (Inr x # rs) = x # issued rs"

section \<open>Constants and invariants\<close>

lemma maxWorkerId_eq: "maxWorkerId = 31"
  by (simp add: maxWorkerId_def workerIdBits_def mask_eq_exp_minus_1)

lemma maxDatacenterId_eq: "maxDatacenterId = 31"
  by (simp add: maxDatacenterId_def datacenterIdBits_def mask_eq_exp_minus_1)

lemma sequenceMask_eq: "sequenceMask = 4095"
  by (simp add: sequenceMask_def sequenceBits_def mask_eq_exp_minus_1)

lemma sless_sint: "a <s b \<longleftrightarrow> sint a < sint b" for a b :: int64
  by (simp add: word_sless_alt)

lemma sle_sint: "a \<le>s b \<longleftrightarrow> sint a \<le> sint b" for a b :: int64
  by (simp add: word_sle_eq)

lemmas layout_defs =
  compose_def twepoch_def timestampLeftShift_def datacenterIdShift_def workerIdShift_def
  sequenceBits_def workerIdBits_def datacenterIdBits_def

section \<open>Signed arithmetic on 64 bits\<close>

lemma sdiv_million_range:
  fixes a :: int
  assumes "- 9223372036854775808 \<le> a" and "a < 9223372036854775808"
  shows "- 9223372036854 \<le> a sdiv 1000000 \<and> a sdiv 1000000 \<le> 9223372036854"
proof -
  have "\<bar>a\<bar> div 1000000 \<le> 9223372036854" "0 \<le> \<bar>a\<bar> div 1000000"
    using assms by (auto simp add: abs_if)
  then show ?thesis
    by (auto simp add: signed_divide_int_def sgn_if)
qed

lemma sint_quo_million: "sint (quo a 1000000) = sint a sdiv 1000000"
proof -
  have "- 9223372036854 \<le> sint a sdiv 1000000 \<and> sint a sdiv 1000000 \<le> 9223372036854"
    using sint_ge[of a] sint_lt[of a] by (intro sdiv_million_range) simp_all
  then show ?thesis
    by (simp add: quo_def sint_sbintrunc' signed_take_bit_int_eq_self)
qed

lemma sint_diff_small:
  fixes a b :: int64
  assumes "- 9223372036854 \<le> sint a" "sint a \<le> 9223372036854"
    and "- 9223372036854 \<le> sint b" "sint b \<le> 9223372036854"
  shows "sint (a - b) = sint a - sint b"
  using assms by (simp add: sint_word_diff signed_take_bit_int_eq_self)

lemma uint_nonneg_sint: "0 \<le> sint a \<Longrightarrow> uint a = sint a" for a :: int64
  using sint_lt[of a] by (simp add: uint_sint take_bit_int_eq_self)

lemma sint_eqI: "sint a = sint b \<Longrightarrow> a = b" for a b :: int64
  by (rule signed_word_eqI)

lemma sint_twepoch: "sint twepoch = 1577808000000"
  by (simp add: twepoch_def)

lemma sint_mask_mod: "sint ((q + 1) AND sequenceMask) = (sint q + 1) mod 4096" for q :: int64
proof -
  have "(q + 1) AND sequenceMask = (q + 1) AND mask 12"
    by (simp add: sequenceMask_eq mask_eq_exp_minus_1)
  also have "uint \<dots> = uint (q + 1) mod 2 ^ 12"
    by (simp add: and_mask_mod_2p uint_word_of_int mod_mod_cancel)
  finally have u: "uint ((q + 1) AND sequenceMask) = uint (q + 1) mod 4096" by simp
  have "uint (q + 1) = (uint q + 1) mod 2 ^ 64" by (simp add: uint_word_ariths)
  also have "uint q = sint q mod 2 ^ 64" by (simp add: uint_sint take_bit_eq_mod)
  finally have "uint (q + 1) mod 4096 = ((sint q mod 2 ^ 64 + 1) mod 2 ^ 64) mod 4096" by simp
  also have "\<dots> = (sint q mod 2 ^ 64 + 1) mod 4096" by (simp add: mod_mod_cancel)
  also have "\<dots> = ((sint q mod 2 ^ 64) mod 4096 + 1) mod 4096" by (simp add: mod_simps)
  also have "\<dots> = (sint q mod 4096 + 1) mod 4096" by (simp add: mod_mod_cancel)
  also have "\<dots> = (sint q + 1) mod 4096" by (simp add: mod_simps)
  finally have v: "uint ((q + 1) AND sequenceMask) = (sint q + 1) mod 4096" using u by simp
  then have "- (2 ^ 63) \<le> uint ((q + 1) AND sequenceMask)" "uint ((q + 1) AND sequenceMask) < 2 ^ 63"
    by simp_all
  then have "sint ((q + 1) AND sequenceMask) = uint ((q + 1) AND sequenceMask)"
    unfolding sint_uint by (intro signed_take_bit_int_eq_self) simp_all
  with v show ?thesis by simp
qed

section \<open>The clock and the busy-wait\<close>

lemma reading_snth: "reading clk k = quo (clk !! k) 1000000"
  by (simp add: reading_def timeGen_def)

lemma reading_0: "reading clk 0 = fst (timeGen clk)"
  by (simp add: reading_def)

lemma reading_stl: "reading (stl clk) k = reading clk (Suc k)"
  by (simp add: reading_def)

lemma reading_sdrop: "reading (sdrop n clk) k = reading clk (n + k)"
  by (simp add: reading_snth sdrop_snth)

lemma timeGen_reading: "timeGen clk = (reading clk 0, stl clk)"
  by (simp add: reading_def timeGen_def)

text \<open>\<^verbatim>\<open>timeGen\<close> returns a 64-bit number of nanoseconds divided by a million.\<close>

lemma reading_range:
  "- 9223372036854 \<le> sint (reading clk k) \<and> sint (reading clk k) \<le> 9223372036854"
  unfolding reading_snth sint_quo_million
  using sint_ge[of "clk !! k"] sint_lt[of "clk !! k"] by (intro sdiv_million_range) simp_all

text \<open>The loop returns the first reading after \<open>l\<close>, when there is one.\<close>

lemma tilNextMillis_loop_returns:
  assumes "\<forall>j<k. reading clk j \<le>s l" and "l <s reading clk k" and "t \<le>s l"
  shows "tilNextMillis_loop l t clk = Some (reading clk k, sdrop (Suc k) clk)"
  using assms
proof (induction k arbitrary: clk t)
  case 0
  then show ?case
    by (subst tilNextMillis_loop.simps, subst tilNextMillis_loop.simps)
       (simp add: timeGen_reading sless_sint sle_sint)
next
  case (Suc k)
  have "tilNextMillis_loop l (reading clk 0) (stl clk)
      = Some (reading (stl clk) k, sdrop (Suc k) (stl clk))"
    using Suc.prems by (intro Suc.IH) (auto simp add: reading_stl)
  then show ?case using Suc.prems(3)
    by (subst tilNextMillis_loop.simps) (simp add: timeGen_reading reading_stl)
qed

lemma tilNextMillis_returns:
  assumes "\<forall>j<k. reading clk j \<le>s l" and "l <s reading clk k"
  shows "tilNextMillis l clk = Some (reading clk k, sdrop (Suc k) clk)"
proof (cases k)
  case 0
  then show ?thesis using assms
    by (simp add: tilNextMillis_def timeGen_reading tilNextMillis_loop.simps sless_sint sle_sint)
next
  case (Suc k')
  have "tilNextMillis_loop l (reading clk 0) (stl clk)
      = Some (reading (stl clk) k', sdrop (Suc k') (stl clk))"
    using assms Suc by (intro tilNextMillis_loop_returns) (auto simp add: reading_stl)
  then show ?thesis using Suc
    by (simp add: tilNextMillis_def timeGen_reading reading_stl)
qed

text \<open>Whatever the loop returns is such a first reading.\<close>

lemma tilNextMillis_loop_Some:
  assumes "tilNextMillis_loop l t clk = Some y"
  shows "(\<not> t \<le>s l \<and> y = (t, clk)) \<or>
         (t \<le>s l \<and> (\<exists>k. (\<forall>j<k. reading clk j \<le>s l) \<and> l <s reading clk k
                        \<and> y = (reading clk k, sdrop (Suc k) clk)))"
  using assms
proof (induction rule: tilNextMillis_loop.raw_induct[rotated 1, consumes 1])
  case (1 loop l t clk y)
  show ?case
  proof (cases "t \<le>s l")
    case False
    with 1(2) show ?thesis by simp
  next
    case True
    with 1(2) have call: "loop l (reading clk 0) (stl clk) = Some y"
      by (simp add: timeGen_reading)
    from 1(1)[OF call] show ?thesis
    proof
      assume "\<not> reading clk 0 \<le>s l \<and> y = (reading clk 0, stl clk)"
      then have "(\<forall>j<0. reading clk j \<le>s l) \<and> l <s reading clk 0
          \<and> y = (reading clk 0, sdrop (Suc 0) clk)"
        by (simp add: sless_sint sle_sint)
      with True show ?thesis by blast
    next
      assume "reading clk 0 \<le>s l \<and>
        (\<exists>k. (\<forall>j<k. reading (stl clk) j \<le>s l) \<and> l <s reading (stl clk) k
           \<and> y = (reading (stl clk) k, sdrop (Suc k) (stl clk)))"
      then obtain k where h: "reading clk 0 \<le>s l"
        and k: "\<forall>j<k. reading clk (Suc j) \<le>s l" "l <s reading clk (Suc k)"
          "y = (reading clk (Suc k), sdrop (Suc (Suc k)) clk)"
        by (auto simp add: reading_stl)
      have "\<forall>j<Suc k. reading clk j \<le>s l"
      proof (intro allI impI)
        fix j assume "j < Suc k"
        then show "reading clk j \<le>s l" using h k(1) by (cases j) auto
      qed
      with k(2,3) True show ?thesis by blast
    qed
  qed
qed

lemma tilNextMillis_Some:
  assumes "tilNextMillis l clk = Some y"
  obtains k where "\<forall>j<k. reading clk j \<le>s l" and "l <s reading clk k"
    and "y = (reading clk k, sdrop (Suc k) clk)"
proof -
  from assms have "tilNextMillis_loop l (reading clk 0) (stl clk) = Some y"
    by (simp add: tilNextMillis_def timeGen_reading)
  then show thesis
  proof (rule tilNextMillis_loop_Some[THEN disjE])
    assume "\<not> reading clk 0 \<le>s l \<and> y = (reading clk 0, stl clk)"
    then have "\<forall>j<0. reading clk j \<le>s l" "l <s reading clk 0"
        "y = (reading clk 0, sdrop (Suc 0) clk)"
      by (simp_all add: sless_sint sle_sint)
    then show thesis by (rule that)
  next
    assume "reading clk 0 \<le>s l \<and>
      (\<exists>k. (\<forall>j<k. reading (stl clk) j \<le>s l) \<and> l <s reading (stl clk) k
         \<and> y = (reading (stl clk) k, sdrop (Suc k) (stl clk)))"
    then obtain k where h: "reading clk 0 \<le>s l"
      and k: "\<forall>j<k. reading clk (Suc j) \<le>s l" "l <s reading clk (Suc k)"
        "y = (reading clk (Suc k), sdrop (Suc (Suc k)) clk)"
      by (auto simp add: reading_stl)
    have "\<forall>j<Suc k. reading clk j \<le>s l"
    proof (intro allI impI)
      fix j assume "j < Suc k"
      then show "reading clk j \<le>s l" using h k(1) by (cases j) auto
    qed
    then show thesis using k(2,3) by (rule that)
  qed
qed

text \<open>On a clock that never passes \<open>l\<close> the loop does not return.\<close>

lemma tilNextMillis_stalled:
  assumes "\<forall>j. reading clk j \<le>s l"
  shows "tilNextMillis l clk = None"
proof (cases "tilNextMillis l clk")
  case None
  then show ?thesis .
next
  case (Some y)
  then obtain k where "l <s reading clk k" by (rule tilNextMillis_Some)
  moreover from assms have "reading clk k \<le>s l" by simp
  ultimately show ?thesis by (simp add: sless_sint sle_sint)
qed

section \<open>The branches of \<^verbatim>\<open>NextId\<close>\<close>

lemma NextId_regression:
  assumes "reading clk 0 <s lastTimestamp s"
  shows "NextId s clk =
    Some (Inl (Errorf ''Clock moved backwards.  Refusing to generate id for %d milliseconds''
                 (lastTimestamp s - reading clk 0)), s, stl clk)"
  using assms by (simp add: NextId_def timeGen_reading)

lemma NextId_later:
  assumes "lastTimestamp s <s reading clk 0"
  shows "NextId s clk =
    Some (Inr (compose (s\<lparr>sequence := 0, lastTimestamp := reading clk 0\<rparr>) (reading clk 0)),
          s\<lparr>sequence := 0, lastTimestamp := reading clk 0\<rparr>, stl clk)"
  using assms by (auto simp add: NextId_def timeGen_reading Let_def sless_sint)

lemma NextId_same:
  assumes "reading clk 0 = lastTimestamp s" and "(sequence s + 1) AND sequenceMask \<noteq> 0"
  shows "NextId s clk =
    Some (Inr (compose (s\<lparr>sequence := (sequence s + 1) AND sequenceMask\<rparr>) (lastTimestamp s)),
          s\<lparr>sequence := (sequence s + 1) AND sequenceMask\<rparr>, stl clk)"
  using assms by (auto simp add: NextId_def timeGen_reading Let_def)

lemma NextId_exhausted:
  assumes "reading clk 0 = lastTimestamp s" and "(sequence s + 1) AND sequenceMask = 0"
  shows "NextId s clk =
    (case tilNextMillis (lastTimestamp s) (stl clk) of
       None \<Rightarrow> None
     | Some (timestamp', clk2) \<Rightarrow>
         Some (Inr (compose (s\<lparr>sequence := 0, lastTimestamp := timestamp'\<rparr>) timestamp'),
               s\<lparr>sequence := 0, lastTimestamp := timestamp'\<rparr>, clk2))"
  using assms by (auto simp add: NextId_def timeGen_reading Let_def split: option.splits)

lemma NextId_Inl:
  assumes "NextId s clk = Some (Inl e, s', clk')"
  shows "reading clk 0 <s lastTimestamp s \<and> s' = s \<and> clk' = stl clk"
  using assms by (auto simp add: NextId_def timeGen_reading Let_def split: if_splits option.splits)

lemma NextId_Inr_cases:
  assumes "NextId s clk = Some (Inr x, s', clk')"
  obtains
    (later) "lastTimestamp s <s reading clk 0"
      and "s' = s\<lparr>sequence := 0, lastTimestamp := reading clk 0\<rparr>" and "clk' = stl clk"
      and "x = compose s' (lastTimestamp s')"
  | (same) "reading clk 0 = lastTimestamp s" and "(sequence s + 1) AND sequenceMask \<noteq> 0"
      and "s' = s\<lparr>sequence := (sequence s + 1) AND sequenceMask\<rparr>" and "clk' = stl clk"
      and "x = compose s' (lastTimestamp s')"
  | (exhausted) k where "reading clk 0 = lastTimestamp s" and "(sequence s + 1) AND sequenceMask = 0"
      and "\<forall>j<k. reading clk (Suc j) \<le>s lastTimestamp s" and "lastTimestamp s <s reading clk (Suc k)"
      and "s' = s\<lparr>sequence := 0, lastTimestamp := reading clk (Suc k)\<rparr>"
      and "clk' = sdrop (Suc (Suc k)) clk"
      and "x = compose s' (lastTimestamp s')"
proof -
  have nr: "\<not> reading clk 0 <s lastTimestamp s"
    using assms by (auto simp add: NextId_def timeGen_reading)
  show thesis
  proof (cases "reading clk 0 = lastTimestamp s")
    case False
    with nr have l: "lastTimestamp s <s reading clk 0"
      using signed.less_linear[of "reading clk 0" "lastTimestamp s"] by auto
    from assms show thesis unfolding NextId_later[OF l] by (intro later[OF l]) auto
  next
    case True
    show thesis
    proof (cases "(sequence s + 1) AND sequenceMask = 0")
      case False
      from assms show thesis unfolding NextId_same[OF True False]
        by (intro same[OF True False]) auto
    next
      case z: True
      from assms obtain y where y: "tilNextMillis (lastTimestamp s) (stl clk) = Some y"
        unfolding NextId_exhausted[OF True z] by (auto split: option.splits)
      then obtain k where k: "\<forall>j<k. reading (stl clk) j \<le>s lastTimestamp s"
        "lastTimestamp s <s reading (stl clk) k" "y = (reading (stl clk) k, sdrop (Suc k) (stl clk))"
        by (rule tilNextMillis_Some)
      from assms show thesis unfolding NextId_exhausted[OF True z] y k(3)
        using k(1,2) by (intro exhausted[OF True z, of k]) (auto simp add: reading_stl)
    qed
  qed
qed

section \<open>The invariant\<close>

lemma New_invar:
  assumes "New wid did = Inr g"
  shows "invar g"
  using assms by (auto simp add: New_def invar_def sle_sint sless_sint maxWorkerId_eq sequenceMask_eq split: if_splits)

lemma NextId_invar:
  assumes "invar s" and "NextId s clk = Some (r, s', clk')"
  shows "invar s'"
proof (cases r)
  case (Inl e)
  with assms show ?thesis by (auto dest: NextId_Inl)
next
  case (Inr x)
  have m: "0 \<le> sint ((sequence s + 1) AND sequenceMask) \<and> sint ((sequence s + 1) AND sequenceMask) \<le> 4095"
    by (simp add: sint_mask_mod)
  from assms(2)[unfolded Inr] show ?thesis
  proof (cases rule: NextId_Inr_cases)
    case later
    then show ?thesis using assms(1) reading_range[of clk 0]
      by (simp add: invar_def sle_sint sless_sint sequenceMask_eq)
  next
    case same
    then show ?thesis using assms(1) m
      by (simp add: invar_def sle_sint sless_sint sequenceMask_eq)
  next
    case (exhausted k)
    then show ?thesis using assms(1) reading_range[of clk "Suc k"]
      by (simp add: invar_def sle_sint sless_sint sequenceMask_eq)
  qed
qed

lemma calls_invar:
  assumes "invar s" and "calls n s clk = Some (rs, s', clk')"
  shows "invar s'"
  using assms
proof (induction n arbitrary: s clk rs)
  case 0
  then show ?case by simp
next
  case (Suc n)
  from Suc.prems(2) obtain r s1 clk1 rs1 where
    1: "NextId s clk = Some (r, s1, clk1)" and 2: "calls n s1 clk1 = Some (rs1, s', clk')"
    by (auto split: option.splits)
  from Suc.prems(1) 1 have "invar s1" by (rule NextId_invar)
  then show ?case using 2 by (rule Suc.IH)
qed

lemmas eval_defs =
  reading_snth quo_def signed_divide_int_def word_sless_alt word_sle_eq invar_def
  sequenceMask_eq maxWorkerId_eq maxDatacenterId_eq layout_defs

section \<open>The layout of an identifier\<close>

lemma take_bit_self: "uint a < 2 ^ n \<Longrightarrow> take_bit n a = a" for a :: int64
  by (simp add: take_bit_eq_mask mask_eq_iff)

lemma fields_disjoint:
  fixes x d w q :: int64
  shows "push_bit 22 x OR push_bit 17 (take_bit 5 d) OR push_bit 12 (take_bit 5 w) OR take_bit 12 q
       = push_bit 22 x + (push_bit 17 (take_bit 5 d) + (push_bit 12 (take_bit 5 w) + take_bit 12 q))"
proof -
  have 1: "push_bit 12 (take_bit 5 w) + take_bit 12 q = push_bit 12 (take_bit 5 w) OR take_bit 12 q"
    by (rule disjunctive_add_eq_or, rule bit_word_eqI) (auto simp add: bit_simps)
  have 2: "push_bit 17 (take_bit 5 d) + (push_bit 12 (take_bit 5 w) OR take_bit 12 q)
      = push_bit 17 (take_bit 5 d) OR push_bit 12 (take_bit 5 w) OR take_bit 12 q"
    by (rule disjunctive_add_eq_or, rule bit_word_eqI) (auto simp add: bit_simps)
  have 3: "push_bit 22 x + (push_bit 17 (take_bit 5 d) OR push_bit 12 (take_bit 5 w) OR take_bit 12 q)
      = push_bit 22 x OR push_bit 17 (take_bit 5 d) OR push_bit 12 (take_bit 5 w) OR take_bit 12 q"
    by (rule disjunctive_add_eq_or, rule bit_word_eqI) (auto simp add: bit_simps)
  show ?thesis by (simp only: 1 2 3)
qed

lemma uint_fields:
  fixes x d w q :: int64
  assumes x: "uint x < 2 ^ 42" and d: "uint d < 2 ^ 5" and w: "uint w < 2 ^ 5" and q: "uint q < 2 ^ 12"
  shows "uint (push_bit 22 x OR push_bit 17 d OR push_bit 12 w OR q)
       = uint x * 4194304 + uint d * 131072 + uint w * 4096 + uint q"
proof -
  have "uint (push_bit 22 x + (push_bit 17 d + (push_bit 12 w + q)))
     = (uint x * 4194304 + uint d * 131072 + uint w * 4096 + uint q) mod 2 ^ 64"
    by (simp add: push_bit_eq_mult uint_word_ariths mod_simps add.assoc)
  also have "\<dots> = uint x * 4194304 + uint d * 131072 + uint w * 4096 + uint q"
    using x d w q by (intro mod_pos_pos_trivial) (simp_all add: add_nonneg_nonneg)
  finally show ?thesis
    using fields_disjoint[of x d w q]
    by (simp add: take_bit_self[OF d] take_bit_self[OF w] take_bit_self[OF q])
qed

lemma decode_fields:
  fixes x d w q :: int64
  shows "take_bit 5 (drop_bit 12 (push_bit 22 x OR push_bit 17 (take_bit 5 d) OR push_bit 12 (take_bit 5 w) OR take_bit 12 q)) = take_bit 5 w"
    and "take_bit 5 (drop_bit 17 (push_bit 22 x OR push_bit 17 (take_bit 5 d) OR push_bit 12 (take_bit 5 w) OR take_bit 12 q)) = take_bit 5 d"
    and "take_bit 12 (push_bit 22 x OR push_bit 17 d OR push_bit 12 w OR take_bit 12 q) = take_bit 12 q"
  by (rule bit_word_eqI; auto simp add: bit_simps)+

lemma invar_uint:
  assumes "invar s"
  shows "uint (workerId s) = sint (workerId s)" "uint (datacenterId s) = sint (datacenterId s)"
    "uint (sequence s) = sint (sequence s)"
    "uint (workerId s) < 2 ^ 5" "uint (datacenterId s) < 2 ^ 5" "uint (sequence s) < 2 ^ 12"
  using assms
  by (simp_all add: invar_def sle_sint uint_nonneg_sint maxWorkerId_eq maxDatacenterId_eq sequenceMask_eq)

lemma compose_decode:
  assumes "invar s"
  shows "take_bit 5 (drop_bit 12 (compose s t)) = workerId s"
    and "take_bit 5 (drop_bit 17 (compose s t)) = datacenterId s"
    and "take_bit 12 (compose s t) = sequence s"
  using decode_fields[of "t - twepoch" "datacenterId s" "workerId s" "sequence s"]
    take_bit_self[OF invar_uint(4)[OF assms]] take_bit_self[OF invar_uint(5)[OF assms]]
    take_bit_self[OF invar_uint(6)[OF assms]]
  by (simp_all add: compose_def timestampLeftShift_def datacenterIdShift_def workerIdShift_def
      sequenceBits_def workerIdBits_def datacenterIdBits_def)

lemma uint_compose:
  assumes "invar s" and "twepoch \<le>s lastTimestamp s" and "lastTimestamp s <s twepoch + 4398046511104"
  shows "uint (compose s (lastTimestamp s)) = level s"
proof -
  have r: "1577808000000 \<le> sint (lastTimestamp s)" "sint (lastTimestamp s) < 5975854511104"
    using assms(2,3) by (simp_all add: sle_sint sless_sint twepoch_def)
  then have "sint (lastTimestamp s - twepoch) = sint (lastTimestamp s) - 1577808000000"
    by (simp add: sint_word_diff sint_twepoch signed_take_bit_int_eq_self)
  with r have x: "uint (lastTimestamp s - twepoch) = sint (lastTimestamp s) - 1577808000000"
    by (simp add: uint_nonneg_sint)
  with r have "uint (lastTimestamp s - twepoch) < 2 ^ 42" by simp
  from uint_fields[OF this invar_uint(5,4,6)[OF assms(1)]] show ?thesis
    by (simp add: compose_def timestampLeftShift_def datacenterIdShift_def workerIdShift_def
      sequenceBits_def workerIdBits_def datacenterIdBits_def level_def x invar_uint(1,2,3)[OF assms(1)])
qed

lemma decode_timestamp:
  fixes x d w q :: int64
  shows "take_bit 41 (drop_bit 22 (push_bit 22 (take_bit 41 x) OR push_bit 17 (take_bit 5 d)
           OR push_bit 12 (take_bit 5 w) OR take_bit 12 q)) = take_bit 41 x"
  by (rule bit_word_eqI) (auto simp add: bit_simps)

lemma compose_timestamp:
  assumes "uint (t - twepoch) < 2 ^ 41"
    and "uint (datacenterId s) < 2 ^ 5" and "uint (workerId s) < 2 ^ 5" and "uint (sequence s) < 2 ^ 12"
  shows "take_bit 41 (drop_bit 22 (compose s t)) = t - twepoch"
    and "take_bit 12 (compose s t) = sequence s"
  using decode_timestamp[of "t - twepoch" "datacenterId s" "workerId s" "sequence s"]
    decode_fields(3)[of "t - twepoch" "datacenterId s" "workerId s" "sequence s"]
    take_bit_self[OF assms(1)] take_bit_self[OF assms(2)] take_bit_self[OF assms(3)]
    take_bit_self[OF assms(4)]
  by (simp_all add: compose_def timestampLeftShift_def datacenterIdShift_def workerIdShift_def
      sequenceBits_def workerIdBits_def datacenterIdBits_def)

lemma decode_timestamp_bits:
  fixes x d w q :: int64
  shows "take_bit 41 (drop_bit 22 (push_bit 22 x OR push_bit 17 (take_bit 5 d)
           OR push_bit 12 (take_bit 5 w) OR take_bit 12 q)) = take_bit 41 x"
  by (rule bit_word_eqI) (auto simp add: bit_simps)

lemma compose_timestamp_bits:
  assumes "uint (datacenterId s) < 2 ^ 5" and "uint (workerId s) < 2 ^ 5" and "uint (sequence s) < 2 ^ 12"
  shows "take_bit 41 (drop_bit 22 (compose s t)) = take_bit 41 (t - twepoch)"
  using decode_timestamp_bits[of "t - twepoch" "datacenterId s" "workerId s" "sequence s"]
    take_bit_self[OF assms(1)] take_bit_self[OF assms(2)] take_bit_self[OF assms(3)]
  by (simp add: compose_def timestampLeftShift_def datacenterIdShift_def workerIdShift_def
      sequenceBits_def workerIdBits_def datacenterIdBits_def)

lemma compose_sequence_bits:
  assumes "uint (sequence s) < 2 ^ 12"
  shows "take_bit 12 (compose s t) = sequence s"
  using decode_fields(3)[of "t - twepoch" "datacenterId s" "workerId s" "sequence s"]
    take_bit_self[OF assms]
  by (simp add: compose_def timestampLeftShift_def datacenterIdShift_def workerIdShift_def
      sequenceBits_def workerIdBits_def datacenterIdBits_def)

lemma uint_since_epoch:
  assumes "twepoch \<le>s t" and "t <s twepoch + 2199023255552"
  shows "uint (t - twepoch) = sint t - 1577808000000" and "uint (t - twepoch) < 2 ^ 41"
proof -
  have r: "1577808000000 \<le> sint t" "sint t < 3776831255552"
    using assms by (simp_all add: sle_sint sless_sint twepoch_def)
  then have "sint (t - twepoch) = sint t - 1577808000000"
    by (simp add: sint_word_diff sint_twepoch signed_take_bit_int_eq_self)
  with r show "uint (t - twepoch) = sint t - 1577808000000"
    by (simp add: uint_nonneg_sint)
  with r show "uint (t - twepoch) < 2 ^ 41" by simp
qed

lemma negative_before_epoch:
  assumes "0 \<le>s t" and "t <s twepoch"
  shows "compose s t <s 0"
proof -
  have r: "0 \<le> sint t" "sint t < 1577808000000"
    using assms by (simp_all add: sle_sint sless_sint twepoch_def)
  then have y: "sint (t - twepoch) = sint t - 1577808000000"
    by (simp add: sint_word_diff sint_twepoch signed_take_bit_int_eq_self)
  have "signed_take_bit 41 (sint (t - twepoch)) = sint (t - twepoch)"
    using r unfolding y by (intro signed_take_bit_int_eq_self) simp_all
  moreover have "sint (t - twepoch) < 0" using r y by simp
  ultimately have "bit (sint (t - twepoch)) 41"
    by (metis signed_take_bit_negative_iff)
  then have "bit (t - twepoch) 41" by (simp add: bit_sint_iff)
  then have "bit (compose s t) 63"
    by (simp add: layout_defs bit_simps)
  then show ?thesis
    using bit_last_iff[of "compose s t"] by (simp add: sless_sint)
qed

section \<open>Runs of calls\<close>

lemma NextId_ids:
  assumes "NextId s clk = Some (r, s', clk')"
  shows "workerId s' = workerId s \<and> datacenterId s' = datacenterId s"
proof (cases r)
  case (Inl e)
  with assms show ?thesis by (auto dest: NextId_Inl)
next
  case (Inr x)
  from assms[unfolded Inr] show ?thesis by (cases rule: NextId_Inr_cases) simp_all
qed

lemma calls_Suc_Some:
  assumes "calls (Suc n) s clk = Some (rs, s', clk')"
  obtains r s1 clk1 rs1 where "NextId s clk = Some (r, s1, clk1)"
    and "calls n s1 clk1 = Some (rs1, s', clk')" and "rs = r # rs1"
  using assms by (auto split: option.splits)

lemma calls_decode:
  assumes "invar s" and "calls n s clk = Some (rs, s', clk')" and "x \<in> set (issued rs)"
  shows "take_bit 5 (drop_bit 12 x) = workerId s \<and> take_bit 5 (drop_bit 17 x) = datacenterId s"
  using assms
proof (induction n arbitrary: s clk rs)
  case 0
  then show ?case by simp
next
  case (Suc n)
  from Suc.prems(2) obtain r s1 clk1 rs1 where
    1: "NextId s clk = Some (r, s1, clk1)" and 2: "calls n s1 clk1 = Some (rs1, s', clk')"
    and 3: "rs = r # rs1"
    by (rule calls_Suc_Some)
  have i1: "invar s1" using Suc.prems(1) 1 by (rule NextId_invar)
  have ids: "workerId s1 = workerId s \<and> datacenterId s1 = datacenterId s"
    using 1 by (rule NextId_ids)
  show ?case
  proof (cases "x \<in> set (issued rs1)")
    case True
    with Suc.IH[OF i1 2] ids show ?thesis by simp
  next
    case False
    with Suc.prems(3) 3 have r: "r = Inr x" by (cases r) simp_all
    have "x = compose s1 (lastTimestamp s1)"
      using 1[unfolded r] by (cases rule: NextId_Inr_cases)
    with compose_decode(1,2)[OF i1] ids show ?thesis by simp
  qed
qed

lemmas run_defs = NextId_def timeGen_def tilNextMillis_def tilNextMillis_loop.simps

lemma sorted_wrt_uint_distinct:
  "sorted_wrt (\<lambda>a b. uint a < uint b) xs \<Longrightarrow> distinct xs" for xs :: "int64 list"
  by (induction xs) auto

lemma NextId_level:
  assumes i: "invar s"
    and c: "\<forall>k. twepoch \<le>s reading clk k \<and> reading clk k <s twepoch + 4398046511104"
    and n: "NextId s clk = Some (Inr x, s', clk')"
  shows "uint x = level s' \<and> level s < level s'"
proof -
  have i': "invar s'" using i n by (rule NextId_invar)
  have b: "0 \<le> sint (sequence s)" "sint (sequence s) \<le> 4095"
    using i by (simp_all add: invar_def sle_sint sequenceMask_eq)
  from n show ?thesis
  proof (cases rule: NextId_Inr_cases)
    case later
    have "uint (compose s' (lastTimestamp s')) = level s'"
      using i' c later(2) by (intro uint_compose) simp_all
    moreover have "level s < level s'"
      using later(1,2) b by (simp add: level_def sless_sint)
    ultimately show ?thesis using later(4) by simp
  next
    case same
    have "uint (compose s' (lastTimestamp s')) = level s'"
      using i' c same(1,3) by (intro uint_compose) (simp_all flip: same(1))
    moreover have "sint ((sequence s + 1) AND sequenceMask) \<noteq> 0"
      using same(2) by (metis sint_0 signed_word_eqI)
    then have "sint ((sequence s + 1) AND sequenceMask) = sint (sequence s) + 1"
      using b unfolding sint_mask_mod by (cases "sint (sequence s) = 4095") simp_all
    then have "level s < level s'"
      using same(3) by (simp add: level_def)
    ultimately show ?thesis using same(5) by simp
  next
    case (exhausted k)
    have "uint (compose s' (lastTimestamp s')) = level s'"
      using i' c exhausted(5) by (intro uint_compose) simp_all
    moreover have "level s < level s'"
      using exhausted(4,5) b by (simp add: level_def sless_sint)
    ultimately show ?thesis using exhausted(7) by simp
  qed
qed

lemma NextId_clock:
  assumes "NextId s clk = Some (r, s', clk')"
  obtains m where "clk' = sdrop m clk"
proof (cases r)
  case (Inl e)
  with assms have "clk' = sdrop (Suc 0) clk" by (auto dest: NextId_Inl)
  then show thesis by (rule that)
next
  case (Inr x)
  from assms[unfolded Inr] show thesis
  proof (cases rule: NextId_Inr_cases)
    case later
    then have "clk' = sdrop (Suc 0) clk" by simp
    then show thesis by (rule that)
  next
    case same
    then have "clk' = sdrop (Suc 0) clk" by simp
    then show thesis by (rule that)
  next
    case (exhausted k)
    then show thesis by (intro that[of "Suc (Suc k)"])
  qed
qed

lemma calls_level:
  assumes "invar s"
    and "\<forall>k. twepoch \<le>s reading clk k \<and> reading clk k <s twepoch + 4398046511104"
    and "calls n s clk = Some (rs, s', clk')"
  shows "sorted_wrt (\<lambda>a b. uint a < uint b) (issued rs) \<and> (\<forall>x\<in>set (issued rs). level s < uint x)"
  using assms
proof (induction n arbitrary: s clk rs)
  case 0
  then show ?case by simp
next
  case (Suc n)
  from Suc.prems(3) obtain r s1 clk1 rs1 where
    1: "NextId s clk = Some (r, s1, clk1)" and 2: "calls n s1 clk1 = Some (rs1, s', clk')"
    and 3: "rs = r # rs1"
    by (rule calls_Suc_Some)
  have i1: "invar s1" using Suc.prems(1) 1 by (rule NextId_invar)
  obtain m where "clk1 = sdrop m clk" using 1 by (rule NextId_clock)
  with Suc.prems(2)
  have c1: "\<forall>k. twepoch \<le>s reading clk1 k \<and> reading clk1 k <s twepoch + 4398046511104"
    by (simp add: reading_sdrop)
  note IH = Suc.IH[OF i1 c1 2]
  show ?case
  proof (cases r)
    case (Inl e)
    with 1 have "s1 = s" by (auto dest: NextId_Inl)
    with IH 3 Inl show ?thesis by simp
  next
    case (Inr x)
    from NextId_level[OF Suc.prems(1,2) 1[unfolded Inr]]
    have "uint x = level s1" "level s < level s1" by simp_all
    with IH 3 Inr show ?thesis by auto
  qed
qed

lemma calls_append:
  "calls (m + n) s clk =
     (case calls m s clk of
        None \<Rightarrow> None
      | Some (rs1, s1, clk1) \<Rightarrow>
          (case calls n s1 clk1 of
             None \<Rightarrow> None
           | Some (rs2, s2, clk2) \<Rightarrow> Some (rs1 @ rs2, s2, clk2)))"
  by (induction m arbitrary: s clk) (auto split: option.splits)

lemma sequence_step:
  fixes q :: int64
  assumes "0 \<le> sint q" and "sint q < 4095"
  shows "(q + 1) AND sequenceMask = q + 1" and "q + 1 \<noteq> 0" and "sint (q + 1) = sint q + 1"
proof -
  show 1: "sint (q + 1) = sint q + 1"
    using assms by (simp add: sint_word_add signed_take_bit_int_eq_self)
  have "sint ((q + 1) AND sequenceMask) = sint q + 1"
    using assms by (simp add: sint_mask_mod)
  with 1 show "(q + 1) AND sequenceMask = q + 1"
    by (intro sint_eqI) simp
  show "q + 1 \<noteq> 0"
  proof
    assume "q + 1 = 0"
    then have "sint (q + 1) = 0" by simp
    with 1 assms show False by simp
  qed
qed

lemma calls_same_millisecond:
  assumes "\<forall>j<n. reading clk j = lastTimestamp s"
    and "0 \<le> sint (sequence s)" and "sint (sequence s) + int n \<le> 4095"
  shows "calls n s clk =
    Some (map (\<lambda>i. Inr (compose (s\<lparr>sequence := sequence s + of_nat (Suc i)\<rparr>) (lastTimestamp s))) [0..<n],
          s\<lparr>sequence := sequence s + of_nat n\<rparr>, sdrop n clk)"
  using assms
proof (induction n arbitrary: s clk)
  case 0
  then show ?case by simp
next
  case (Suc n)
  let ?s1 = "s\<lparr>sequence := sequence s + 1\<rparr>"
  have q: "(sequence s + 1) AND sequenceMask = sequence s + 1" "sequence s + 1 \<noteq> 0"
    "sint (sequence s + 1) = sint (sequence s) + 1"
    using Suc.prems(2,3) by (simp_all add: sequence_step)
  have r0: "reading clk 0 = lastTimestamp s" using Suc.prems(1) by simp
  have 1: "NextId s clk = Some (Inr (compose ?s1 (lastTimestamp s)), ?s1, stl clk)"
    using NextId_same[OF r0] q(1,2) by simp
  have 2: "calls n ?s1 (stl clk) =
    Some (map (\<lambda>i. Inr (compose (?s1\<lparr>sequence := sequence ?s1 + of_nat (Suc i)\<rparr>) (lastTimestamp ?s1))) [0..<n],
          ?s1\<lparr>sequence := sequence ?s1 + of_nat n\<rparr>, sdrop n (stl clk))"
    using Suc.prems q(3) by (intro Suc.IH) (auto simp add: reading_stl)
  have 3: "map (\<lambda>i. Inr (compose (s\<lparr>sequence := sequence s + of_nat (Suc i)\<rparr>) (lastTimestamp s))) [0..<Suc n]
     = Inr (compose ?s1 (lastTimestamp s))
       # map (\<lambda>i. (Inr (compose (s\<lparr>sequence := sequence s + 1 + of_nat (Suc i)\<rparr>) (lastTimestamp s)) :: error + int64)) [0..<n]"
    by (simp only: upt_conv_Cons[of 0 "Suc n"] map_Suc_upt[symmetric] list.map map_map o_def)
       (simp add: add_ac)
  show ?case
    unfolding calls.simps 1 3 using 2 by (simp add: add_ac)
qed

lemma calls_first_4096:
  assumes l: "lastTimestamp s <s t"
    and same: "\<forall>j<4096. reading clk j = t"
  shows "calls 4096 s clk =
    Some (map (\<lambda>i. Inr (compose (s\<lparr>lastTimestamp := t, sequence := of_nat i\<rparr>) t)) [0..<4096],
          s\<lparr>lastTimestamp := t, sequence := 4095\<rparr>, sdrop 4096 clk)"
proof -
  let ?s0 = "s\<lparr>lastTimestamp := t, sequence := 0\<rparr>"
  let ?s2 = "s\<lparr>lastTimestamp := t, sequence := 4095\<rparr>"
  have u: "r\<lparr>sequence := x, lastTimestamp := y\<rparr> = r\<lparr>lastTimestamp := y, sequence := x\<rparr>"
    for r :: Snowflake and x y
    by simp
  have r0: "reading clk 0 = t" using same by simp
  have a: "NextId s clk = Some (Inr (compose ?s0 t), ?s0, stl clk)"
    using NextId_later[of s clk, unfolded u] l by (simp add: r0)
  have "calls 4095 ?s0 (stl clk) =
    Some (map (\<lambda>i. Inr (compose (?s0\<lparr>sequence := sequence ?s0 + of_nat (Suc i)\<rparr>) (lastTimestamp ?s0))) [0..<4095],
          ?s0\<lparr>sequence := sequence ?s0 + of_nat 4095\<rparr>, sdrop 4095 (stl clk))"
    using same by (intro calls_same_millisecond) (simp_all add: reading_stl)
  moreover have "(4096::nat) = Suc 4095" by simp
  then have "sdrop 4095 (stl clk) = sdrop 4096 clk" by (simp only: sdrop.simps)
  ultimately have b: "calls 4095 ?s0 (stl clk) =
    Some (map (\<lambda>i. Inr (compose (s\<lparr>lastTimestamp := t, sequence := of_nat (Suc i)\<rparr>) t)) [0..<4095],
          ?s2, sdrop 4096 clk)"
    by simp
  have m: "map (\<lambda>i. (Inr (compose (s\<lparr>lastTimestamp := t, sequence := of_nat i\<rparr>) t) :: error + int64)) [0..<4096]
      = Inr (compose ?s0 t)
        # map (\<lambda>i. Inr (compose (s\<lparr>lastTimestamp := t, sequence := of_nat (Suc i)\<rparr>) t)) [0..<4095]"
  proof -
    have "[0..<Suc 4095] = 0 # map Suc [0..<4095]"
      by (simp only: map_Suc_upt upt_conv_Cons[of 0 "Suc 4095", OF zero_less_Suc])
    moreover have "Suc 4095 = 4096" by simp
    ultimately have "[0..<4096] = 0 # map Suc [0..<4095]" by (simp only:)
    then show ?thesis by (simp only: list.map map_map o_def semiring_1_class.of_nat_0)
  qed
  have "calls 4096 s clk = calls (Suc 0 + 4095) s clk" by simp
  also have "\<dots> = Some (Inr (compose ?s0 t)
        # map (\<lambda>i. Inr (compose (s\<lparr>lastTimestamp := t, sequence := of_nat (Suc i)\<rparr>) t)) [0..<4095],
        ?s2, sdrop 4096 clk)"
    by (subst calls_append[of "Suc 0"]) (simp add: a b)
  finally show ?thesis unfolding m .
qed

lemma calls_full_millisecond:
  assumes l: "lastTimestamp s <s t"
    and same: "\<forall>j<4096. reading clk j = t"
    and nr: "t \<le>s reading clk 4096"
    and wait: "\<forall>j<k. reading clk (4096 + j) \<le>s t"
    and pass: "t <s reading clk (4096 + k)"
  shows "calls 4097 s clk =
    Some (map (\<lambda>i. Inr (compose (s\<lparr>lastTimestamp := t, sequence := of_nat i\<rparr>) t)) [0..<4096]
            @ [Inr (compose (s\<lparr>lastTimestamp := reading clk (4096 + k), sequence := 0\<rparr>)
                     (reading clk (4096 + k)))],
          s\<lparr>lastTimestamp := reading clk (4096 + k), sequence := 0\<rparr>, sdrop (4097 + k) clk)"
proof -
  let ?s0 = "s\<lparr>lastTimestamp := t, sequence := 0\<rparr>"
  let ?s2 = "s\<lparr>lastTimestamp := t, sequence := 4095\<rparr>"
  let ?t' = "reading clk (4096 + k)"
  let ?s' = "s\<lparr>lastTimestamp := ?t', sequence := 0\<rparr>"
  have u: "r\<lparr>sequence := x, lastTimestamp := y\<rparr> = r\<lparr>lastTimestamp := y, sequence := x\<rparr>"
    for r :: Snowflake and x y
    by simp
  have r0: "reading clk 0 = t" using same by simp
  have a: "NextId s clk = Some (Inr (compose ?s0 t), ?s0, stl clk)"
    using NextId_later[of s clk, unfolded u] l by (simp add: r0)
  have "calls 4095 ?s0 (stl clk) =
    Some (map (\<lambda>i. Inr (compose (?s0\<lparr>sequence := sequence ?s0 + of_nat (Suc i)\<rparr>) (lastTimestamp ?s0))) [0..<4095],
          ?s0\<lparr>sequence := sequence ?s0 + of_nat 4095\<rparr>, sdrop 4095 (stl clk))"
    using same by (intro calls_same_millisecond) (simp_all add: reading_stl)
  moreover have "(4096::nat) = Suc 4095" by simp
  then have "sdrop 4095 (stl clk) = sdrop 4096 clk" by (simp only: sdrop.simps)
  ultimately have b: "calls 4095 ?s0 (stl clk) =
    Some (map (\<lambda>i. Inr (compose (s\<lparr>lastTimestamp := t, sequence := of_nat (Suc i)\<rparr>) t)) [0..<4095],
          ?s2, sdrop 4096 clk)"
    by simp
  have r: "reading (sdrop 4096 clk) 0 = reading clk 4096"
    by (simp add: reading_sdrop)
  have c: "NextId ?s2 (sdrop 4096 clk) = Some (Inr (compose ?s' ?t'), ?s', sdrop (4097 + k) clk)"
  proof (cases k)
    case 0
    with pass have "lastTimestamp ?s2 <s reading (sdrop 4096 clk) 0" by (simp add: r)
    from NextId_later[OF this, unfolded u] 0 show ?thesis by (simp add: r)
  next
    case (Suc k')
    with wait have "reading clk 4096 \<le>s t" by auto
    with nr have e: "reading clk 4096 = t" by (intro sint_eqI) (simp add: sle_sint)
    have z: "(sequence ?s2 + 1) AND sequenceMask = 0" by (simp add: sequenceMask_eq)
    have "tilNextMillis t (stl (sdrop 4096 clk))
        = Some (reading (stl (sdrop 4096 clk)) k', sdrop (Suc k') (stl (sdrop 4096 clk)))"
    proof (rule tilNextMillis_returns)
      show "\<forall>j<k'. reading (stl (sdrop 4096 clk)) j \<le>s t"
        using wait Suc by (auto simp add: reading_stl reading_sdrop)
      show "t <s reading (stl (sdrop 4096 clk)) k'"
        using pass Suc by (simp add: reading_stl reading_sdrop)
    qed
    then have "tilNextMillis t (stl (sdrop 4096 clk)) = Some (?t', sdrop (4097 + k) clk)"
      using Suc by (simp add: reading_stl reading_sdrop)
    with NextId_exhausted[of "sdrop 4096 clk" ?s2, OF _ z, unfolded u] show ?thesis
      by (simp add: r e)
  qed
  have m: "map (\<lambda>i. (Inr (compose (s\<lparr>lastTimestamp := t, sequence := of_nat i\<rparr>) t) :: error + int64)) [0..<4096]
      = Inr (compose ?s0 t)
        # map (\<lambda>i. Inr (compose (s\<lparr>lastTimestamp := t, sequence := of_nat (Suc i)\<rparr>) t)) [0..<4095]"
  proof -
    have "[0..<Suc 4095] = 0 # map Suc [0..<4095]"
      by (simp only: map_Suc_upt upt_conv_Cons[of 0 "Suc 4095", OF zero_less_Suc])
    moreover have "Suc 4095 = 4096" by simp
    ultimately have "[0..<4096] = 0 # map Suc [0..<4095]" by (simp only:)
    then show ?thesis by (simp only: list.map map_map o_def semiring_1_class.of_nat_0)
  qed
  have "calls 4097 s clk = calls (Suc 0 + (4095 + Suc 0)) s clk" by simp
  also have "\<dots> = Some ((Inr (compose ?s0 t)
        # map (\<lambda>i. Inr (compose (s\<lparr>lastTimestamp := t, sequence := of_nat (Suc i)\<rparr>) t)) [0..<4095])
            @ [Inr (compose ?s' ?t')], ?s', sdrop (4097 + k) clk)"
    by (subst calls_append[of "Suc 0"], subst calls_append[of 4095]) (simp add: a b c)
  finally show ?thesis unfolding m .
qed

section \<open>The properties\<close>

text \<open>
  Claim C1, amended. For a generator made by \<^verbatim>\<open>New\<close> and a clock whose readings all lie from the
  epoch 1577808000000 up to, but not including, the epoch plus \<open>2 ^ 42\<close> milliseconds, the
  identifiers that a run of calls issues increase strictly, compared as unsigned integers, in
  the order of the calls; so no two of them are equal. (Calls that fail in between issue
  nothing and leave the generator as it is.)
\<close>

theorem issued_ids_increase:
  assumes "New wid did = Inr g"
    and "\<forall>k. twepoch \<le>s reading clk k \<and> reading clk k <s twepoch + 4398046511104"
    and "calls n g clk = Some (rs, g', clk')"
  shows "sorted_wrt (\<lambda>a b. uint a < uint b) (issued rs) \<and> distinct (issued rs)"
  using calls_level[OF New_invar[OF assms(1)] assms(2,3)] sorted_wrt_uint_distinct by blast

theorem issued_ids_increase_witness:
  "New 3 2 = Inr \<lparr>lastTimestamp = 0, workerId = 3, datacenterId = 2, sequence = 0\<rparr>
   \<and> calls (Suc (Suc (Suc 0))) \<lparr>lastTimestamp = 0, workerId = 3, datacenterId = 2, sequence = 0\<rparr>
        (sconst 1577808000007123456)
     = Some ([Inr 29634560, Inr 29634561, Inr 29634562],
             \<lparr>lastTimestamp = 1577808000007, workerId = 3, datacenterId = 2, sequence = 2\<rparr>,
             sconst 1577808000007123456)
   \<and> sorted_wrt (\<lambda>a b. uint a < uint b) [29634560, 29634561, 29634562 :: int64]
   \<and> distinct [29634560, 29634561, 29634562 :: int64]"
proof -
  let ?g = "\<lparr>lastTimestamp = 0, workerId = 3, datacenterId = 2, sequence = 0\<rparr>"
  have n: "New 3 2 = Inr ?g"
    by (simp add: New_def eval_defs)
  have r: "\<forall>k. twepoch \<le>s reading (sconst 1577808000007123456) k
      \<and> reading (sconst 1577808000007123456) k <s twepoch + 4398046511104"
    by (simp add: eval_defs)
  have c: "calls (Suc (Suc (Suc 0))) ?g (sconst 1577808000007123456)
     = Some ([Inr 29634560, Inr 29634561, Inr 29634562],
             \<lparr>lastTimestamp = 1577808000007, workerId = 3, datacenterId = 2, sequence = 2\<rparr>,
             sconst 1577808000007123456)"
    by (simp add: run_defs eval_defs)
  from issued_ids_increase[OF n r c] n c show ?thesis by simp
qed

text \<open>
  Without the bound on the clock the identifiers do not increase. A reading of
  \<open>epoch + 2 ^ 42 - 1\<close> followed by \<open>epoch + 2 ^ 42\<close>, and a reading of \<open>epoch - 1\<close> followed
  by \<open>epoch\<close>, both give the identifier \<open>2 ^ 64 - 2 ^ 22\<close> and then the identifier 0: the
  shift by 22 bits keeps the low 42 bits of \<open>timestamp - epoch\<close> only.
\<close>

theorem issued_ids_increase_counterexample:
  "New 0 0 = Inr \<lparr>lastTimestamp = 0, workerId = 0, datacenterId = 0, sequence = 0\<rparr>
   \<and> calls (Suc (Suc 0)) \<lparr>lastTimestamp = 0, workerId = 0, datacenterId = 0, sequence = 0\<rparr>
        (5975854511103000000 ## sconst 5975854511104000000)
     = Some ([Inr 18446744073705357312, Inr 0],
             \<lparr>lastTimestamp = 5975854511104, workerId = 0, datacenterId = 0, sequence = 0\<rparr>,
             sconst 5975854511104000000)
   \<and> calls (Suc (Suc 0)) \<lparr>lastTimestamp = 0, workerId = 0, datacenterId = 0, sequence = 0\<rparr>
        (1577807999999000000 ## sconst 1577808000000000000)
     = Some ([Inr 18446744073705357312, Inr 0],
             \<lparr>lastTimestamp = 1577808000000, workerId = 0, datacenterId = 0, sequence = 0\<rparr>,
             sconst 1577808000000000000)
   \<and> uint (0 :: int64) < uint (18446744073705357312 :: int64)"
  by (simp add: New_def run_defs eval_defs push_bit_eq_mult)

text \<open>
  Claim C2. Every successful call of \<^verbatim>\<open>NextId\<close> returns
  \<^verbatim>\<open>((timestamp - epoch) << 22) | (datacenterId << 17) | (workerId << 12) | sequence\<close>, where
  \<open>timestamp\<close> and \<open>sequence\<close> are the \<open>lastTimestamp\<close> and \<open>sequence\<close> that the call leaves
  in the generator, the two ids are those of the generator, and the epoch is 1577808000000.
\<close>

theorem NextId_returns_the_packed_fields:
  assumes "NextId s clk = Some (Inr x, s', clk')"
  shows "x = ((push_bit 22 (lastTimestamp s' - 1577808000000) OR push_bit 17 (datacenterId s))
                OR push_bit 12 (workerId s)) OR sequence s'
       \<and> twepoch = 1577808000000"
  using assms by (cases rule: NextId_Inr_cases) (simp_all add: layout_defs or.assoc)

theorem NextId_returns_the_packed_fields_witness:
  "NextId \<lparr>lastTimestamp = 1577808000007, workerId = 3, datacenterId = 2, sequence = 8\<rparr>
      (sconst 1577808000007123456)
     = Some (Inr 29634569, \<lparr>lastTimestamp = 1577808000007, workerId = 3, datacenterId = 2, sequence = 9\<rparr>,
             sconst 1577808000007123456)
   \<and> (29634569 :: int64) = ((push_bit 22 (1577808000007 - 1577808000000) OR push_bit 17 2)
                OR push_bit 12 3) OR 9
   \<and> twepoch = 1577808000000"
proof -
  have c: "NextId \<lparr>lastTimestamp = 1577808000007, workerId = 3, datacenterId = 2, sequence = 8\<rparr>
      (sconst 1577808000007123456)
     = Some (Inr 29634569, \<lparr>lastTimestamp = 1577808000007, workerId = 3, datacenterId = 2, sequence = 9\<rparr>,
             sconst 1577808000007123456)"
    by (simp add: NextId_def timeGen_def quo_def signed_divide_int_def word_sless_alt
        sequenceMask_eq layout_defs)
  from NextId_returns_the_packed_fields[OF c] c show ?thesis by (simp add: twepoch_def)
qed

text \<open>
  Claim C3. When the clock reads \<open>lastTimestamp\<close>, \<^verbatim>\<open>NextId\<close> sets \<open>sequence\<close> to
  \<open>(sequence + 1) mod 4096\<close>. If that is not 0 the identifier is issued with the same
  timestamp. If it is 0 the call reads the clock again and again: when the readings 1 to
  \<open>k\<close> are not after \<open>lastTimestamp\<close> and reading \<open>k + 1\<close> is, the call uses reading \<open>k + 1\<close>
  as its timestamp and has consumed \<open>k + 2\<close> readings; when no reading is ever after
  \<open>lastTimestamp\<close> the call does not return.
\<close>

theorem NextId_same_millisecond:
  assumes "reading clk 0 = lastTimestamp s"
  shows "sint ((sequence s + 1) AND sequenceMask) = (sint (sequence s) + 1) mod 4096
    \<and> ((sequence s + 1) AND sequenceMask \<noteq> 0 \<longrightarrow>
         NextId s clk =
           Some (Inr (compose (s\<lparr>sequence := (sequence s + 1) AND sequenceMask\<rparr>) (lastTimestamp s)),
                 s\<lparr>sequence := (sequence s + 1) AND sequenceMask\<rparr>, stl clk))
    \<and> ((sequence s + 1) AND sequenceMask = 0 \<and> (\<forall>j<k. reading clk (Suc j) \<le>s lastTimestamp s)
          \<and> lastTimestamp s <s reading clk (Suc k) \<longrightarrow>
         NextId s clk =
           Some (Inr (compose (s\<lparr>sequence := 0, lastTimestamp := reading clk (Suc k)\<rparr>)
                        (reading clk (Suc k))),
                 s\<lparr>sequence := 0, lastTimestamp := reading clk (Suc k)\<rparr>, sdrop (Suc (Suc k)) clk))
    \<and> ((sequence s + 1) AND sequenceMask = 0 \<and> (\<forall>j. reading clk (Suc j) \<le>s lastTimestamp s) \<longrightarrow>
         NextId s clk = None)"
proof (intro conjI impI)
  show "sint ((sequence s + 1) AND sequenceMask) = (sint (sequence s) + 1) mod 4096"
    by (rule sint_mask_mod)
  show "NextId s clk =
           Some (Inr (compose (s\<lparr>sequence := (sequence s + 1) AND sequenceMask\<rparr>) (lastTimestamp s)),
                 s\<lparr>sequence := (sequence s + 1) AND sequenceMask\<rparr>, stl clk)"
    if "(sequence s + 1) AND sequenceMask \<noteq> 0"
    using assms that by (rule NextId_same)
  show "NextId s clk =
           Some (Inr (compose (s\<lparr>sequence := 0, lastTimestamp := reading clk (Suc k)\<rparr>)
                        (reading clk (Suc k))),
                 s\<lparr>sequence := 0, lastTimestamp := reading clk (Suc k)\<rparr>, sdrop (Suc (Suc k)) clk)"
    if h: "(sequence s + 1) AND sequenceMask = 0 \<and> (\<forall>j<k. reading clk (Suc j) \<le>s lastTimestamp s)
          \<and> lastTimestamp s <s reading clk (Suc k)"
  proof -
    have "tilNextMillis (lastTimestamp s) (stl clk)
        = Some (reading (stl clk) k, sdrop (Suc k) (stl clk))"
      using h by (intro tilNextMillis_returns) (simp_all add: reading_stl)
    then show ?thesis using h by (simp add: NextId_exhausted[OF assms] reading_stl)
  qed
  show "NextId s clk = None"
    if h: "(sequence s + 1) AND sequenceMask = 0 \<and> (\<forall>j. reading clk (Suc j) \<le>s lastTimestamp s)"
  proof -
    have "tilNextMillis (lastTimestamp s) (stl clk) = None"
      using h by (intro tilNextMillis_stalled) (simp add: reading_stl)
    then show ?thesis using h by (simp add: NextId_exhausted[OF assms])
  qed
qed

theorem NextId_same_millisecond_witness:
  "NextId \<lparr>lastTimestamp = 1577808000010, workerId = 1, datacenterId = 1, sequence = 3\<rparr>
      (sconst 1577808000010500000)
     = Some (Inr 42078212,
             \<lparr>lastTimestamp = 1577808000010, workerId = 1, datacenterId = 1, sequence = 4\<rparr>,
             sconst 1577808000010500000)
   \<and> NextId \<lparr>lastTimestamp = 1577808000010, workerId = 1, datacenterId = 1, sequence = 4095\<rparr>
      (1577808000010000000 ## 1577808000010900000 ## 1577808000009000000 ## 1577808000011000000
        ## sconst 1577808000011000001)
     = Some (Inr 46272512,
             \<lparr>lastTimestamp = 1577808000011, workerId = 1, datacenterId = 1, sequence = 0\<rparr>,
             sconst 1577808000011000001)
   \<and> NextId \<lparr>lastTimestamp = 1577808000010, workerId = 1, datacenterId = 1, sequence = 4095\<rparr>
      (sconst 1577808000010000000) = None"
  using
    NextId_same_millisecond[of "sconst 1577808000010500000"
      "\<lparr>lastTimestamp = 1577808000010, workerId = 1, datacenterId = 1, sequence = 3\<rparr>"]
    NextId_same_millisecond[of "1577808000010000000 ## 1577808000010900000 ## 1577808000009000000
        ## 1577808000011000000 ## sconst 1577808000011000001"
      "\<lparr>lastTimestamp = 1577808000010, workerId = 1, datacenterId = 1, sequence = 4095\<rparr>"
      "Suc (Suc 0)"]
    NextId_same_millisecond[of "sconst 1577808000010000000"
      "\<lparr>lastTimestamp = 1577808000010, workerId = 1, datacenterId = 1, sequence = 4095\<rparr>"]
  by (simp add: eval_defs All_less_Suc)

text \<open>
  Claim C4. When the clock reads less than \<open>lastTimestamp\<close>, \<^verbatim>\<open>NextId\<close> returns the error
  whose argument is \<open>lastTimestamp - timestamp\<close>, and the generator is the one it was called
  with. For a generator that satisfies the invariant the subtraction does not wrap around, so
  the argument is the difference of the two numbers. The next call then behaves as on the
  unchanged generator: with a reading after \<open>lastTimestamp\<close> it issues the identifier of
  the new millisecond, with a reading equal to \<open>lastTimestamp\<close> and a sequence that is not
  exhausted it issues the next identifier of the millisecond.
\<close>

theorem NextId_clock_regression:
  assumes "reading clk 0 <s lastTimestamp s"
  shows "NextId s clk =
      Some (Inl (Errorf ''Clock moved backwards.  Refusing to generate id for %d milliseconds''
                   (lastTimestamp s - reading clk 0)), s, stl clk)
    \<and> (invar s \<longrightarrow>
          sint (lastTimestamp s - reading clk 0) = sint (lastTimestamp s) - sint (reading clk 0))
    \<and> (lastTimestamp s <s reading clk 1 \<longrightarrow>
          calls 2 s clk =
            Some ([Inl (Errorf ''Clock moved backwards.  Refusing to generate id for %d milliseconds''
                         (lastTimestamp s - reading clk 0)),
                   Inr (compose (s\<lparr>sequence := 0, lastTimestamp := reading clk 1\<rparr>) (reading clk 1))],
                  s\<lparr>sequence := 0, lastTimestamp := reading clk 1\<rparr>, stl (stl clk)))
    \<and> (reading clk 1 = lastTimestamp s \<and> (sequence s + 1) AND sequenceMask \<noteq> 0 \<longrightarrow>
          calls 2 s clk =
            Some ([Inl (Errorf ''Clock moved backwards.  Refusing to generate id for %d milliseconds''
                         (lastTimestamp s - reading clk 0)),
                   Inr (compose (s\<lparr>sequence := (sequence s + 1) AND sequenceMask\<rparr>) (lastTimestamp s))],
                  s\<lparr>sequence := (sequence s + 1) AND sequenceMask\<rparr>, stl (stl clk)))"
proof (intro conjI impI)
  show 1: "NextId s clk =
      Some (Inl (Errorf ''Clock moved backwards.  Refusing to generate id for %d milliseconds''
                   (lastTimestamp s - reading clk 0)), s, stl clk)"
    using assms by (rule NextId_regression)
  show "sint (lastTimestamp s - reading clk 0) = sint (lastTimestamp s) - sint (reading clk 0)"
    if "invar s"
    using that reading_range[of clk 0]
    by (intro sint_diff_small) (simp_all add: invar_def sle_sint)
  have two: "calls 2 s clk = calls (Suc (Suc 0)) s clk" by (simp add: numeral_2_eq_2)
  show "calls 2 s clk =
            Some ([Inl (Errorf ''Clock moved backwards.  Refusing to generate id for %d milliseconds''
                         (lastTimestamp s - reading clk 0)),
                   Inr (compose (s\<lparr>sequence := 0, lastTimestamp := reading clk 1\<rparr>) (reading clk 1))],
                  s\<lparr>sequence := 0, lastTimestamp := reading clk 1\<rparr>, stl (stl clk))"
    if "lastTimestamp s <s reading clk 1"
    using NextId_later[of s "stl clk", unfolded reading_stl] that
    by (simp add: two 1)
  show "calls 2 s clk =
            Some ([Inl (Errorf ''Clock moved backwards.  Refusing to generate id for %d milliseconds''
                         (lastTimestamp s - reading clk 0)),
                   Inr (compose (s\<lparr>sequence := (sequence s + 1) AND sequenceMask\<rparr>) (lastTimestamp s))],
                  s\<lparr>sequence := (sequence s + 1) AND sequenceMask\<rparr>, stl (stl clk))"
    if "reading clk 1 = lastTimestamp s \<and> (sequence s + 1) AND sequenceMask \<noteq> 0"
    using NextId_same[of "stl clk" s, unfolded reading_stl] that
    by (simp add: two 1)
qed

theorem NextId_clock_regression_witness:
  "NextId \<lparr>lastTimestamp = 1577808000010, workerId = 1, datacenterId = 1, sequence = 3\<rparr>
      (1577808000004000000 ## 1577808000012000000 ## sconst 1577808000012000001)
     = Some (Inl (Errorf ''Clock moved backwards.  Refusing to generate id for %d milliseconds'' 6),
             \<lparr>lastTimestamp = 1577808000010, workerId = 1, datacenterId = 1, sequence = 3\<rparr>,
             1577808000012000000 ## sconst 1577808000012000001)
   \<and> sint (6 :: int64) = 1577808000010 - 1577808000004
   \<and> calls 2 \<lparr>lastTimestamp = 1577808000010, workerId = 1, datacenterId = 1, sequence = 3\<rparr>
      (1577808000004000000 ## 1577808000012000000 ## sconst 1577808000012000001)
     = Some ([Inl (Errorf ''Clock moved backwards.  Refusing to generate id for %d milliseconds'' 6),
              Inr 50466816],
             \<lparr>lastTimestamp = 1577808000012, workerId = 1, datacenterId = 1, sequence = 0\<rparr>,
             sconst 1577808000012000001)
   \<and> calls 2 \<lparr>lastTimestamp = 1577808000010, workerId = 1, datacenterId = 1, sequence = 3\<rparr>
      (1577808000004000000 ## 1577808000010999999 ## sconst 1577808000012000001)
     = Some ([Inl (Errorf ''Clock moved backwards.  Refusing to generate id for %d milliseconds'' 6),
              Inr 42078212],
             \<lparr>lastTimestamp = 1577808000010, workerId = 1, datacenterId = 1, sequence = 4\<rparr>,
             sconst 1577808000012000001)"
  using
    NextId_clock_regression[of "1577808000004000000 ## 1577808000012000000 ## sconst 1577808000012000001"
      "\<lparr>lastTimestamp = 1577808000010, workerId = 1, datacenterId = 1, sequence = 3\<rparr>"]
    NextId_clock_regression[of "1577808000004000000 ## 1577808000010999999 ## sconst 1577808000012000001"
      "\<lparr>lastTimestamp = 1577808000010, workerId = 1, datacenterId = 1, sequence = 3\<rparr>"]
  by (simp add: eval_defs)

text \<open>
  Claim C5, amended. Take a generator and a millisecond \<open>t\<close> after its \<open>lastTimestamp\<close>. If the
  first 4096 readings of the clock are \<open>t\<close>, then the first 4096 calls succeed and issue
  identifiers whose bits 11 to 0 are 0, 1, ..., 4095 in this order; for a generator that
  satisfies the invariant their bits 62 to 22 are all the same, the low 41 bits of
  \<open>t - epoch\<close>. If moreover reading 4096 is not before \<open>t\<close> and reading \<open>4096 + k\<close> is the first
  one after \<open>t\<close>, the call number 4097 returns, with that reading as its timestamp. If also
  \<open>t\<close> is not before the epoch and that reading is less than \<open>2 ^ 41\<close> milliseconds after it,
  the low 41 bits of \<open>t - epoch\<close> are \<open>t - epoch\<close> itself, and bits 62 to 22 of the last
  identifier are the reading minus the epoch, which is at least 1 more than \<open>t - epoch\<close>.
\<close>

theorem full_millisecond_then_next:
  assumes "lastTimestamp s <s t" and "\<forall>j<4096. reading clk j = t"
  shows "calls 4096 s clk =
      Some (map (\<lambda>i. Inr (compose (s\<lparr>lastTimestamp := t, sequence := of_nat i\<rparr>) t)) [0..<4096],
            s\<lparr>lastTimestamp := t, sequence := 4095\<rparr>, sdrop 4096 clk)
    \<and> (\<forall>i<4096.
          take_bit 12 (compose (s\<lparr>lastTimestamp := t, sequence := of_nat i\<rparr>) t) = of_nat i)
    \<and> (invar s \<longrightarrow>
          (\<forall>i<4096.
             take_bit 41 (drop_bit 22 (compose (s\<lparr>lastTimestamp := t, sequence := of_nat i\<rparr>) t))
               = take_bit 41 (t - twepoch)))
    \<and> (t \<le>s reading clk 4096 \<and> (\<forall>j<k. reading clk (4096 + j) \<le>s t)
          \<and> t <s reading clk (4096 + k) \<longrightarrow>
        calls 4097 s clk =
          Some (map (\<lambda>i. Inr (compose (s\<lparr>lastTimestamp := t, sequence := of_nat i\<rparr>) t)) [0..<4096]
                  @ [Inr (compose (s\<lparr>lastTimestamp := reading clk (4096 + k), sequence := 0\<rparr>)
                           (reading clk (4096 + k)))],
                s\<lparr>lastTimestamp := reading clk (4096 + k), sequence := 0\<rparr>, sdrop (4097 + k) clk)
        \<and> (invar s \<and> twepoch \<le>s t \<and> reading clk (4096 + k) <s twepoch + 2199023255552 \<longrightarrow>
              take_bit 41 (t - twepoch) = t - twepoch
            \<and> take_bit 41 (drop_bit 22
                  (compose (s\<lparr>lastTimestamp := reading clk (4096 + k), sequence := 0\<rparr>)
                     (reading clk (4096 + k))))
                = reading clk (4096 + k) - twepoch
            \<and> uint (t - twepoch) + 1 \<le> uint (reading clk (4096 + k) - twepoch)))"
proof (intro conjI allI impI)
  let ?t' = "reading clk (4096 + k)"
  show "calls 4096 s clk =
      Some (map (\<lambda>i. Inr (compose (s\<lparr>lastTimestamp := t, sequence := of_nat i\<rparr>) t)) [0..<4096],
            s\<lparr>lastTimestamp := t, sequence := 4095\<rparr>, sdrop 4096 clk)"
    using assms by (rule calls_first_4096)
  show "take_bit 12 (compose (s\<lparr>lastTimestamp := t, sequence := of_nat i\<rparr>) t) = of_nat i"
    if "i < 4096" for i :: nat
  proof -
    have "uint (of_nat i :: int64) < 2 ^ 12"
      using that by (simp add: unsigned_of_nat take_bit_nat_eq_self)
    then show ?thesis
      using compose_sequence_bits[of "s\<lparr>lastTimestamp := t, sequence := of_nat i\<rparr>" t] by simp
  qed
  show "take_bit 41 (drop_bit 22 (compose (s\<lparr>lastTimestamp := t, sequence := of_nat i\<rparr>) t))
      = take_bit 41 (t - twepoch)"
    if "invar s" and "i < 4096" for i :: nat
  proof -
    have "uint (of_nat i :: int64) < 2 ^ 12"
      using that(2) by (simp add: unsigned_of_nat take_bit_nat_eq_self)
    then show ?thesis
      using compose_timestamp_bits[of "s\<lparr>lastTimestamp := t, sequence := of_nat i\<rparr>" t]
        invar_uint(5,4)[OF that(1)]
      by simp
  qed
  show "calls 4097 s clk =
      Some (map (\<lambda>i. Inr (compose (s\<lparr>lastTimestamp := t, sequence := of_nat i\<rparr>) t)) [0..<4096]
              @ [Inr (compose (s\<lparr>lastTimestamp := ?t', sequence := 0\<rparr>) ?t')],
            s\<lparr>lastTimestamp := ?t', sequence := 0\<rparr>, sdrop (4097 + k) clk)"
    if "t \<le>s reading clk 4096 \<and> (\<forall>j<k. reading clk (4096 + j) \<le>s t) \<and> t <s ?t'"
    using assms that by (intro calls_full_millisecond) simp_all
  assume p: "t \<le>s reading clk 4096 \<and> (\<forall>j<k. reading clk (4096 + j) \<le>s t) \<and> t <s ?t'"
    and b: "invar s \<and> twepoch \<le>s t \<and> ?t' <s twepoch + 2199023255552"
  have lt: "t <s twepoch + 2199023255552"
    using p b by (simp add: sless_sint)
  have le: "twepoch \<le>s ?t'"
    using p b by (simp add: sless_sint sle_sint)
  from b have e: "uint (t - twepoch) = sint t - 1577808000000" "uint (t - twepoch) < 2 ^ 41"
    using uint_since_epoch[OF _ lt] by simp_all
  from b have e': "uint (?t' - twepoch) = sint ?t' - 1577808000000" "uint (?t' - twepoch) < 2 ^ 41"
    using uint_since_epoch[OF le] by simp_all
  from b have f: "uint (datacenterId s) < 2 ^ 5" "uint (workerId s) < 2 ^ 5"
    using invar_uint(5,4) by simp_all
  show "take_bit 41 (t - twepoch) = t - twepoch"
    using e(2) by (rule take_bit_self)
  show "uint (t - twepoch) + 1 \<le> uint (?t' - twepoch)"
    using p by (simp add: e(1) e'(1) sless_sint)
  show "take_bit 41 (drop_bit 22 (compose (s\<lparr>lastTimestamp := ?t', sequence := 0\<rparr>) ?t'))
      = ?t' - twepoch"
    using e'(2) f by (intro compose_timestamp) simp_all
qed

theorem full_millisecond_then_next_witness:
  "calls 4096 \<lparr>lastTimestamp = 0, workerId = 0, datacenterId = 0, sequence = 0\<rparr>
      (replicate 4097 1577808000005000000 @- sconst 1577808000006000000)
     = Some (map (\<lambda>i. Inr (20971520 OR of_nat i)) [0..<4096],
             \<lparr>lastTimestamp = 1577808000005, workerId = 0, datacenterId = 0, sequence = 4095\<rparr>,
             sdrop 4096 (replicate 4097 1577808000005000000 @- sconst 1577808000006000000))
   \<and> calls 4097 \<lparr>lastTimestamp = 0, workerId = 0, datacenterId = 0, sequence = 0\<rparr>
      (replicate 4097 1577808000005000000 @- sconst 1577808000006000000)
     = Some (map (\<lambda>i. Inr (20971520 OR of_nat i)) [0..<4096] @ [Inr 25165824],
             \<lparr>lastTimestamp = 1577808000006, workerId = 0, datacenterId = 0, sequence = 0\<rparr>,
             sdrop 4098 (replicate 4097 1577808000005000000 @- sconst 1577808000006000000))
   \<and> take_bit 12 (20971520 OR of_nat 7 :: int64) = of_nat 7
   \<and> take_bit 41 (drop_bit 22 (20971520 OR of_nat 7 :: int64)) = take_bit 41 5
   \<and> take_bit 41 (5 :: int64) = 5
   \<and> take_bit 41 (drop_bit 22 (25165824 :: int64)) = 6
   \<and> uint (5 :: int64) + 1 \<le> uint (6 :: int64)"
proof -
  let ?clk = "replicate 4097 1577808000005000000 @- sconst 1577808000006000000 :: clock"
  let ?s = "\<lparr>lastTimestamp = 0, workerId = 0, datacenterId = 0, sequence = 0\<rparr>"
  have h: "lastTimestamp ?s <s 1577808000005"
    "\<forall>j<4096. reading ?clk j = 1577808000005"
    by (simp_all add: eval_defs)
  have g: "invar ?s"
    "1577808000005 \<le>s reading ?clk 4096"
    "\<forall>j<Suc 0. reading ?clk (4096 + j) \<le>s 1577808000005"
    "1577808000005 <s reading ?clk (4096 + Suc 0)"
    "twepoch \<le>s 1577808000005" "reading ?clk (4096 + Suc 0) <s twepoch + 2199023255552"
    by (simp_all add: eval_defs)
  have r: "reading ?clk (4096 + Suc 0) = 1577808000006"
    by (simp add: eval_defs)
  from full_millisecond_then_next[OF h, of "Suc 0"] g show ?thesis
    unfolding r by (simp add: layout_defs)
qed

text \<open>
  Without that bound the timestamp field of the call number 4097 can be smaller: after 4096
  calls at \<open>epoch + 5\<close> a reading of \<open>epoch + 2 ^ 42 + 3\<close> gives an identifier whose
  timestamp field is 3, whether one reads bits 62 to 22 or bits 63 to 22.
\<close>

theorem full_millisecond_then_next_counterexample:
  "calls 4097 \<lparr>lastTimestamp = 0, workerId = 0, datacenterId = 0, sequence = 0\<rparr>
      (replicate 4096 1577808000005000000 @- sconst 5975854511107000000)
     = Some (map (\<lambda>i. Inr (20971520 OR of_nat i)) [0..<4096] @ [Inr 12582912],
             \<lparr>lastTimestamp = 5975854511107, workerId = 0, datacenterId = 0, sequence = 0\<rparr>,
             sdrop 4097 (replicate 4096 1577808000005000000 @- sconst 5975854511107000000))
   \<and> take_bit 41 (drop_bit 22 (20971520 OR of_nat 0 :: int64)) = 5
   \<and> take_bit 41 (drop_bit 22 (12582912 :: int64)) = 3
   \<and> drop_bit 22 (12582912 :: int64) = 3"
proof -
  let ?clk = "replicate 4096 1577808000005000000 @- sconst 5975854511107000000 :: clock"
  let ?s = "\<lparr>lastTimestamp = 0, workerId = 0, datacenterId = 0, sequence = 0\<rparr>"
  have h: "lastTimestamp ?s <s 1577808000005"
    "\<forall>j<4096. reading ?clk j = 1577808000005"
    "1577808000005 \<le>s reading ?clk 4096"
    "\<forall>j<0. reading ?clk (4096 + j) \<le>s 1577808000005"
    "1577808000005 <s reading ?clk (4096 + 0)"
    by (simp_all add: eval_defs)
  have r: "reading ?clk (4096 + 0) = 5975854511107"
    by (simp add: eval_defs)
  from calls_full_millisecond[OF h] show ?thesis
    unfolding r by (simp add: layout_defs)
qed

text \<open>
  Claim C6. \<^verbatim>\<open>New\<close> succeeds for every pair of a worker id and a datacenter id in the range
  from 0 to 31, and returns the generator with these two, \<open>lastTimestamp = 0\<close> and
  \<open>sequence = 0\<close>. When one of the two is negative or above 31 it returns an error, and so
  no generator.
\<close>

theorem New_accepts_exactly_the_range:
  "(0 \<le> sint wid \<and> sint wid \<le> 31 \<and> 0 \<le> sint did \<and> sint did \<le> 31 \<longrightarrow>
      New wid did = Inr \<lparr>lastTimestamp = 0, workerId = wid, datacenterId = did, sequence = 0\<rparr>)
   \<and> (sint wid < 0 \<or> 31 < sint wid \<or> sint did < 0 \<or> 31 < sint did \<longrightarrow> isl (New wid did))"
  by (auto simp add: New_def maxWorkerId_eq maxDatacenterId_eq sless_sint)

theorem New_accepts_exactly_the_range_witness:
  "New 3 31 = Inr \<lparr>lastTimestamp = 0, workerId = 3, datacenterId = 31, sequence = 0\<rparr>
   \<and> isl (New 32 0) \<and> isl (New (- 1) 0) \<and> isl (New 0 32) \<and> isl (New 0 (- 1))"
  using New_accepts_exactly_the_range[of 3 31] New_accepts_exactly_the_range[of 32 0]
    New_accepts_exactly_the_range[of "- 1" 0] New_accepts_exactly_the_range[of 0 32]
    New_accepts_exactly_the_range[of 0 "- 1"]
  by simp

text \<open>
  Claim C7. For a generator made by \<^verbatim>\<open>New\<close> from a worker id and a datacenter id (so both are
  in the range from 0 to 31), every identifier that any run of calls issues has the worker id
  in its bits 16 to 12 and the datacenter id in its bits 21 to 17.
\<close>

theorem issued_ids_decode:
  assumes "New wid did = Inr g" and "calls n g clk = Some (rs, g', clk')"
    and "x \<in> set (issued rs)"
  shows "take_bit 5 (drop_bit 12 x) = wid \<and> take_bit 5 (drop_bit 17 x) = did"
proof -
  have "workerId g = wid" "datacenterId g = did"
    using assms(1) by (auto simp add: New_def split: if_splits)
  with calls_decode[OF New_invar[OF assms(1)] assms(2,3)] show ?thesis by simp
qed

theorem issued_ids_decode_witness:
  "New 3 2 = Inr \<lparr>lastTimestamp = 0, workerId = 3, datacenterId = 2, sequence = 0\<rparr>
   \<and> calls (Suc (Suc 0)) \<lparr>lastTimestamp = 0, workerId = 3, datacenterId = 2, sequence = 0\<rparr>
        (sconst 1577808000007123456)
     = Some ([Inr 29634560, Inr 29634561],
             \<lparr>lastTimestamp = 1577808000007, workerId = 3, datacenterId = 2, sequence = 1\<rparr>,
             sconst 1577808000007123456)
   \<and> take_bit 5 (drop_bit 12 (29634561 :: int64)) = 3
   \<and> take_bit 5 (drop_bit 17 (29634561 :: int64)) = 2"
proof -
  let ?g = "\<lparr>lastTimestamp = 0, workerId = 3, datacenterId = 2, sequence = 0\<rparr>"
  have n: "New 3 2 = Inr ?g"
    by (simp add: New_def eval_defs)
  have c: "calls (Suc (Suc 0)) ?g (sconst 1577808000007123456)
     = Some ([Inr 29634560, Inr 29634561],
             \<lparr>lastTimestamp = 1577808000007, workerId = 3, datacenterId = 2, sequence = 1\<rparr>,
             sconst 1577808000007123456)"
    by (simp add: run_defs eval_defs)
  from issued_ids_decode[OF n c, of 29634561] n c show ?thesis by simp
qed

text \<open>
  Claim C8. When the clock reads more than \<open>lastTimestamp\<close>, \<^verbatim>\<open>NextId\<close> sets \<open>sequence\<close> to 0.
  On every successful call the identifier is composed from the \<open>lastTimestamp\<close> that the call
  stores in the generator, and this is not less than the \<open>lastTimestamp\<close> before the call.
\<close>

theorem NextId_new_millisecond:
  "(lastTimestamp s <s reading clk 0 \<longrightarrow>
      NextId s clk =
        Some (Inr (compose (s\<lparr>sequence := 0, lastTimestamp := reading clk 0\<rparr>) (reading clk 0)),
              s\<lparr>sequence := 0, lastTimestamp := reading clk 0\<rparr>, stl clk))
   \<and> (NextId s clk = Some (Inr x, s', clk') \<longrightarrow>
        x = compose s' (lastTimestamp s') \<and> lastTimestamp s \<le>s lastTimestamp s')"
proof (intro conjI impI)
  assume "NextId s clk = Some (Inr x, s', clk')"
  then show "x = compose s' (lastTimestamp s')" by (cases rule: NextId_Inr_cases)
next
  assume "NextId s clk = Some (Inr x, s', clk')"
  then show "lastTimestamp s \<le>s lastTimestamp s'"
    by (cases rule: NextId_Inr_cases) (simp_all add: sle_sint sless_sint)
qed (rule NextId_later)

theorem NextId_new_millisecond_witness:
  "NextId \<lparr>lastTimestamp = 1577808000010, workerId = 1, datacenterId = 1, sequence = 3\<rparr>
      (sconst 1577808000012000000)
     = Some (Inr 50466816,
             \<lparr>lastTimestamp = 1577808000012, workerId = 1, datacenterId = 1, sequence = 0\<rparr>,
             sconst 1577808000012000000)
   \<and> (50466816 :: int64)
       = compose \<lparr>lastTimestamp = 1577808000012, workerId = 1, datacenterId = 1, sequence = 0\<rparr>
           1577808000012
   \<and> (1577808000010 :: int64) \<le>s 1577808000012"
proof -
  let ?s = "\<lparr>lastTimestamp = 1577808000010, workerId = 1, datacenterId = 1, sequence = 3\<rparr>"
  let ?s' = "\<lparr>lastTimestamp = 1577808000012, workerId = 1, datacenterId = 1, sequence = 0\<rparr>"
  have c: "NextId ?s (sconst 1577808000012000000) = Some (Inr 50466816, ?s', sconst 1577808000012000000)"
    using NextId_new_millisecond[of ?s "sconst 1577808000012000000"] by (simp add: eval_defs)
  with NextId_new_millisecond[of ?s "sconst 1577808000012000000" 50466816 ?s' "sconst 1577808000012000000"]
  show ?thesis by simp
qed

text \<open>
  Claim C9. The message of a rejected worker id names the bound 31. The message of a rejected
  datacenter id does not: \<^verbatim>\<open>New\<close> formats it with the rejected \<^verbatim>\<open>datacenterId\<close> where the
  worker branch has \<^verbatim>\<open>maxWorkerId\<close>. For \<^verbatim>\<open>New(0, 32)\<close> the message says 32, for
  \<^verbatim>\<open>New(32, 0)\<close> it says 31.
\<close>

theorem New_datacenterId_message:
  "New 0 32 = Inl (Errorf ''datacenter Id can't be greater than %d or less than 0'' 32)
   \<and> Error (Errorf ''datacenter Id can't be greater than %d or less than 0'' 32)
       = ''datacenter Id can't be greater than 32 or less than 0''
   \<and> New 32 0 = Inl (Errorf ''worker Id can't be greater than %d or less than 0'' 31)
   \<and> Error (Errorf ''worker Id can't be greater than %d or less than 0'' 31)
       = ''worker Id can't be greater than 31 or less than 0''"
  by (simp add: New_def maxWorkerId_eq maxDatacenterId_eq format_d_def word_sless_alt)

text \<open>
  Claim C10, amended. Let the \<open>lastTimestamp\<close> of the generator be at least 0, as it is for every
  generator made by \<^verbatim>\<open>New\<close>, and let the clock read \<open>t\<close> with \<open>lastTimestamp \<le> t\<close> and \<open>t\<close> before
  the epoch. Then \<^verbatim>\<open>NextId\<close> does not return an error. If \<open>t\<close> is after \<open>lastTimestamp\<close>, or the
  sequence is not exhausted, it returns an identifier composed from \<open>t\<close>, which is negative.
  In the remaining case, \<open>t = lastTimestamp\<close> with the sequence exhausted, it waits for a later
  reading: when the readings 1 to \<open>k\<close> are not after \<open>lastTimestamp\<close> and reading \<open>k + 1\<close> is after
  it and still before the epoch, the call returns the identifier composed from reading
  \<open>k + 1\<close>, which is negative.
\<close>

theorem NextId_before_epoch:
  assumes "0 \<le>s lastTimestamp s" and "lastTimestamp s \<le>s reading clk 0"
    and "reading clk 0 <s twepoch"
  shows "NextId s clk \<noteq> Some (Inl e, s', clk')
    \<and> (lastTimestamp s <s reading clk 0 \<or> (sequence s + 1) AND sequenceMask \<noteq> 0 \<longrightarrow>
          (\<exists>x s1. NextId s clk = Some (Inr x, s1, stl clk) \<and> lastTimestamp s1 = reading clk 0
                 \<and> x = compose s1 (reading clk 0) \<and> x <s 0))
    \<and> (reading clk 0 = lastTimestamp s \<and> (sequence s + 1) AND sequenceMask = 0
          \<and> (\<forall>j<k. reading clk (Suc j) \<le>s lastTimestamp s)
          \<and> lastTimestamp s <s reading clk (Suc k) \<and> reading clk (Suc k) <s twepoch \<longrightarrow>
        NextId s clk =
          Some (Inr (compose (s\<lparr>sequence := 0, lastTimestamp := reading clk (Suc k)\<rparr>)
                       (reading clk (Suc k))),
                s\<lparr>sequence := 0, lastTimestamp := reading clk (Suc k)\<rparr>, sdrop (Suc (Suc k)) clk)
        \<and> compose (s\<lparr>sequence := 0, lastTimestamp := reading clk (Suc k)\<rparr>) (reading clk (Suc k))
              <s 0)"
proof (intro conjI impI)
  show "NextId s clk \<noteq> Some (Inl e, s', clk')"
    using assms(2) by (auto dest!: NextId_Inl simp add: sless_sint sle_sint)
  have t0: "0 \<le>s reading clk 0"
    using assms(1,2) by (simp add: sle_sint)
  show "\<exists>x s1. NextId s clk = Some (Inr x, s1, stl clk) \<and> lastTimestamp s1 = reading clk 0
           \<and> x = compose s1 (reading clk 0) \<and> x <s 0"
    if h: "lastTimestamp s <s reading clk 0 \<or> (sequence s + 1) AND sequenceMask \<noteq> 0"
  proof (cases "lastTimestamp s <s reading clk 0")
    case True
    from NextId_later[OF True] negative_before_epoch[OF t0 assms(3)] show ?thesis by simp
  next
    case False
    with assms(2) have e: "reading clk 0 = lastTimestamp s"
      by (intro sint_eqI) (simp add: sle_sint sless_sint)
    with False h have "(sequence s + 1) AND sequenceMask \<noteq> 0" by simp
    from NextId_same[OF e this] negative_before_epoch[OF t0 assms(3)] e show ?thesis by simp
  qed
  assume h: "reading clk 0 = lastTimestamp s \<and> (sequence s + 1) AND sequenceMask = 0
          \<and> (\<forall>j<k. reading clk (Suc j) \<le>s lastTimestamp s)
          \<and> lastTimestamp s <s reading clk (Suc k) \<and> reading clk (Suc k) <s twepoch"
  have "tilNextMillis (lastTimestamp s) (stl clk)
      = Some (reading (stl clk) k, sdrop (Suc k) (stl clk))"
    using h by (intro tilNextMillis_returns) (simp_all add: reading_stl)
  then show "NextId s clk =
          Some (Inr (compose (s\<lparr>sequence := 0, lastTimestamp := reading clk (Suc k)\<rparr>)
                       (reading clk (Suc k))),
                s\<lparr>sequence := 0, lastTimestamp := reading clk (Suc k)\<rparr>, sdrop (Suc (Suc k)) clk)"
    using h NextId_exhausted[of clk s] by (simp add: reading_stl)
  have "0 \<le>s reading clk (Suc k)"
    using assms(1) h by (simp add: sle_sint sless_sint)
  then show "compose (s\<lparr>sequence := 0, lastTimestamp := reading clk (Suc k)\<rparr>) (reading clk (Suc k))
      <s 0"
    using h by (intro negative_before_epoch) simp_all
qed

theorem NextId_before_epoch_witness:
  "NextId \<lparr>lastTimestamp = 0, workerId = 1, datacenterId = 1, sequence = 0\<rparr> (sconst 5000000)
     = Some (Inr (- 6617806405610893312),
             \<lparr>lastTimestamp = 5, workerId = 1, datacenterId = 1, sequence = 0\<rparr>, sconst 5000000)
   \<and> (- 6617806405610893312 :: int64) <s 0
   \<and> NextId \<lparr>lastTimestamp = 5, workerId = 1, datacenterId = 1, sequence = 0\<rparr> (sconst 5000000)
     = Some (Inr (- 6617806405610893311),
             \<lparr>lastTimestamp = 5, workerId = 1, datacenterId = 1, sequence = 1\<rparr>, sconst 5000000)
   \<and> (- 6617806405610893311 :: int64) <s 0
   \<and> NextId \<lparr>lastTimestamp = 5, workerId = 1, datacenterId = 1, sequence = 4095\<rparr>
        (5000000 ## 5999999 ## 4000000 ## 7000000 ## sconst 7000001)
     = Some (Inr (- 6617806405602504704),
             \<lparr>lastTimestamp = 7, workerId = 1, datacenterId = 1, sequence = 0\<rparr>, sconst 7000001)
   \<and> (- 6617806405602504704 :: int64) <s 0"
proof -
  let ?s = "\<lparr>lastTimestamp = 0, workerId = 1, datacenterId = 1, sequence = 0\<rparr>"
  let ?s1 = "\<lparr>lastTimestamp = 5, workerId = 1, datacenterId = 1, sequence = 0\<rparr>"
  let ?s2 = "\<lparr>lastTimestamp = 5, workerId = 1, datacenterId = 1, sequence = 4095\<rparr>"
  let ?clk = "sconst 5000000 :: clock"
  let ?clk2 = "5000000 ## 5999999 ## 4000000 ## 7000000 ## sconst 7000001 :: clock"
  have h: "0 \<le>s lastTimestamp ?s" "lastTimestamp ?s \<le>s reading ?clk 0" "reading ?clk 0 <s twepoch"
    by (simp_all add: eval_defs)
  have h1: "0 \<le>s lastTimestamp ?s1" "lastTimestamp ?s1 \<le>s reading ?clk 0"
    by (simp_all add: eval_defs)
  have h2: "0 \<le>s lastTimestamp ?s2" "lastTimestamp ?s2 \<le>s reading ?clk2 0"
    "reading ?clk2 0 <s twepoch"
    by (simp_all add: eval_defs)
  have c: "compose \<lparr>lastTimestamp = 5, workerId = 1, datacenterId = 1, sequence = 0\<rparr> 5
      = - 6617806405610893312"
    "compose \<lparr>lastTimestamp = 5, workerId = 1, datacenterId = 1, sequence = 1\<rparr> 5
      = - 6617806405610893311"
    "compose \<lparr>lastTimestamp = 7, workerId = 1, datacenterId = 1, sequence = 0\<rparr> 7
      = - 6617806405602504704"
    by (simp_all add: layout_defs push_bit_eq_mult)
  have 1: "NextId ?s ?clk = Some (Inr (- 6617806405610893312), ?s1, ?clk)
      \<and> (- 6617806405610893312 :: int64) <s 0"
    using NextId_before_epoch[OF h] NextId_later[of ?s ?clk]
    by (auto simp add: eval_defs c)
  have 2: "NextId ?s1 ?clk
      = Some (Inr (- 6617806405610893311),
          \<lparr>lastTimestamp = 5, workerId = 1, datacenterId = 1, sequence = 1\<rparr>, ?clk)
      \<and> (- 6617806405610893311 :: int64) <s 0"
    using NextId_before_epoch[OF h1 h(3)] NextId_same[of ?clk ?s1]
    by (auto simp add: eval_defs c)
  have 3: "NextId ?s2 ?clk2
      = Some (Inr (- 6617806405602504704),
          \<lparr>lastTimestamp = 7, workerId = 1, datacenterId = 1, sequence = 0\<rparr>, sconst 7000001)
      \<and> (- 6617806405602504704 :: int64) <s 0"
    using NextId_before_epoch[OF h2, of _ _ _ "Suc (Suc 0)"]
    by (simp add: eval_defs All_less_Suc c)
  from 1 2 3 show ?thesis by simp
qed

text \<open>
  When the first later reading is not before the epoch the identifier is not negative, and
  when there is no later reading the call does not return. With \<open>lastTimestamp = 5\<close> and
  \<open>sequence = 4095\<close> the clock reads 5, then 5 again in the wait, then \<open>epoch + 1\<close>: the
  identifier is 4194304. On a clock that stays at 5 the call does not return. A generator
  made by \<^verbatim>\<open>New(0, 0)\<close> is in that state after 4096 calls at millisecond 5; its call number
  4097 is the one that returns 4194304.
\<close>

theorem NextId_before_epoch_counterexample:
  "(5 :: int64) \<le>s reading (5000000 ## 5999999 ## sconst 1577808000001000000) 0
   \<and> reading (5000000 ## 5999999 ## sconst 1577808000001000000) 0 <s twepoch
   \<and> NextId \<lparr>lastTimestamp = 5, workerId = 0, datacenterId = 0, sequence = 4095\<rparr>
        (5000000 ## 5999999 ## sconst 1577808000001000000)
     = Some (Inr 4194304,
             \<lparr>lastTimestamp = 1577808000001, workerId = 0, datacenterId = 0, sequence = 0\<rparr>,
             sconst 1577808000001000000)
   \<and> \<not> (4194304 :: int64) <s 0
   \<and> NextId \<lparr>lastTimestamp = 5, workerId = 0, datacenterId = 0, sequence = 4095\<rparr>
        (sconst 5000000) = None
   \<and> calls 4097 \<lparr>lastTimestamp = 0, workerId = 0, datacenterId = 0, sequence = 0\<rparr>
        (replicate 4097 5000000 @- sconst 1577808000001000000)
     = Some (map (\<lambda>i. Inr (- 6617806405611028480 OR of_nat i)) [0..<4096] @ [Inr 4194304],
             \<lparr>lastTimestamp = 1577808000001, workerId = 0, datacenterId = 0, sequence = 0\<rparr>,
             sdrop 4098 (replicate 4097 5000000 @- sconst 1577808000001000000))"
proof -
  let ?clk = "replicate 4097 5000000 @- sconst 1577808000001000000 :: clock"
  let ?s = "\<lparr>lastTimestamp = 0, workerId = 0, datacenterId = 0, sequence = 0\<rparr>"
  have h: "lastTimestamp ?s <s 5"
    "\<forall>j<4096. reading ?clk j = 5"
    "5 \<le>s reading ?clk 4096"
    "\<forall>j<Suc 0. reading ?clk (4096 + j) \<le>s 5"
    "5 <s reading ?clk (4096 + Suc 0)"
    by (simp_all add: eval_defs)
  have r: "reading ?clk (4096 + Suc 0) = 1577808000001"
    by (simp add: eval_defs)
  have stalled: "NextId \<lparr>lastTimestamp = 5, workerId = 0, datacenterId = 0, sequence = 4095\<rparr>
        (sconst 5000000) = None"
    using NextId_exhausted[of "sconst 5000000"
        "\<lparr>lastTimestamp = 5, workerId = 0, datacenterId = 0, sequence = 4095\<rparr>"]
      tilNextMillis_stalled[of "sconst 5000000" 5]
    by (simp add: eval_defs)
  have run: "calls 4097 ?s ?clk
     = Some (map (\<lambda>i. Inr (- 6617806405611028480 OR of_nat i)) [0..<4096] @ [Inr 4194304],
             \<lparr>lastTimestamp = 1577808000001, workerId = 0, datacenterId = 0, sequence = 0\<rparr>,
             sdrop 4098 ?clk)"
    using calls_full_millisecond[OF h] unfolding r by (simp add: layout_defs push_bit_eq_mult)
  show ?thesis
    unfolding stalled run by (simp add: run_defs eval_defs)
qed

end
